theory Spec2Isabelle
  imports Complex_Main "HOL-Library.AList"
begin

section \<open>Python values\<close>

text \<open>
  Every value the clients handle comes out of \<^verbatim>\<open>json.load\<close> / \<^verbatim>\<open>resp.json()\<close> or
  goes into \<^verbatim>\<open>json.dump\<close>, so Python values are modelled as JSON values. Python's
  \<^verbatim>\<open>None\<close> is \<open>JNull\<close>. A JSON number is a Python \<^verbatim>\<open>int\<close> (unbounded) or a Python
  \<^verbatim>\<open>float\<close>: a finite double, an infinity or a NaN (\<^verbatim>\<open>json\<close> reads and writes all of
  them). A finite float is written \<open>Fin x\<close> with \<open>x\<close> the real number it stands for;
  the two zeros of a double are not told apart. A \<^verbatim>\<open>dict\<close> is an association list in
  insertion order; a lookup reads the first binding of a key.
\<close>

datatype pyfloat = Fin real | PInf | NInf | NaN

datatype json =
    JNull
  | JBool bool
  | JInt int
  | JFloat pyfloat
  | JStr string
  | JArr "json list"
  | JObj "(string \<times> json) list"

type_synonym dict = "(string \<times> json) list"

datatype tmdb_reason =
    KeyNotSet
  | NetworkError
  | BadStatus int json
  | DecodeFailed

datatype error =
    TypeError
  | AttributeError
  | OverflowError
  | ImportError
  | JSONDecodeError
  | RequestException
  | ValueError string
  | TMDbError tmdb_reason
  | FirebaseAuthError json
  | ConfigError string

text \<open>Truth value of a Python object, as tested by \<^verbatim>\<open>if x\<close>, \<^verbatim>\<open>not x\<close>, \<^verbatim>\<open>x or y\<close>.\<close>

fun truthy :: "json \<Rightarrow> bool" where
  "truthy JNull = False"
| "truthy (JBool b) = b"
| "truthy (JInt n) = (n \<noteq> 0)"
| "truthy (JFloat f) = (f \<noteq> Fin 0)"
| "truthy (JStr s) = (s \<noteq> [])"
| "truthy (JArr xs) = (xs \<noteq> [])"
| "truthy (JObj kvs) = (kvs \<noteq> [])"

text \<open>\<^verbatim>\<open>a or b\<close>\<close>

definition py_or :: "json \<Rightarrow> json \<Rightarrow> json" where
  "py_or a b = (if truthy a then a else b)"

text \<open>\<^verbatim>\<open>d.get(k)\<close> and \<^verbatim>\<open>d.get(k, default)\<close> on a dict.\<close>

definition dict_get_default :: "dict \<Rightarrow> string \<Rightarrow> json \<Rightarrow> json" where
  "dict_get_default d k dflt = (case map_of d k of None \<Rightarrow> dflt | Some v \<Rightarrow> v)"

definition dict_get :: "dict \<Rightarrow> string \<Rightarrow> json" where
  "dict_get d k = dict_get_default d k JNull"

section \<open>Python arithmetic on JSON numbers\<close>

text \<open>
  Double precision, as \<^verbatim>\<open>float\<close> has it. \<open>rhe\<close> rounds a real to the nearest integer,
  a tie going to the even one. \<open>expo x\<close> is the exponent of the unit in the last place
  at \<open>x\<close>: 52 below the exponent of \<open>x\<close>, and never below that of the subnormal
  doubles. \<open>rnd x\<close> is the multiple of that unit nearest to \<open>x\<close> (ties to even): the
  double that \<open>x\<close> rounds to, when it is below \<open>2 ^ 1024\<close> in size. A real is a double
  when rounding leaves it as it is and it is below \<open>2 ^ 1024\<close> in size.
\<close>

definition rhe :: "real \<Rightarrow> int" where
  "rhe q =
     (let f = \<lfloor>q\<rfloor>; d = q - of_int f
      in if d < 1 / 2 then f else if 1 / 2 < d then f + 1 else if even f then f else f + 1)"

definition expo :: "real \<Rightarrow> int" where
  "expo x = (if x = 0 then - 1074 else max (\<lfloor>log 2 \<bar>x\<bar>\<rfloor> - 52) (- 1074))"

definition rnd :: "real \<Rightarrow> real" where
  "rnd x = of_int (rhe (x / 2 powi expo x)) * 2 powi expo x"

definition is_double :: "real \<Rightarrow> bool" where
  "is_double x = (rnd x = x \<and> \<bar>x\<bar> < 2 ^ 1024)"

text \<open>
  \<^verbatim>\<open>float(n)\<close> of an \<^verbatim>\<open>int\<close>, as the mixed operations do it: the nearest double, or
  \<^verbatim>\<open>OverflowError\<close> when the int is too large for one.
\<close>

definition to_float :: "int \<Rightarrow> error + pyfloat" where
  "to_float n =
     (let r = rnd (of_int n)
      in if 2 ^ 1024 \<le> \<bar>r\<bar> then Inl OverflowError else Inr (Fin r))"

text \<open>\<^verbatim>\<open>x + y\<close> of two floats: the rounded sum, an infinity on overflow; no exception.\<close>

fun fadd :: "pyfloat \<Rightarrow> pyfloat \<Rightarrow> pyfloat" where
  "fadd (Fin x) (Fin y) =
     (let r = rnd (x + y)
      in if 2 ^ 1024 \<le> r then PInf else if r \<le> - (2 ^ 1024) then NInf else Fin r)"
| "fadd NaN y = NaN"
| "fadd x NaN = NaN"
| "fadd PInf NInf = NaN"
| "fadd NInf PInf = NaN"
| "fadd PInf y = PInf"
| "fadd x PInf = PInf"
| "fadd NInf y = NInf"
| "fadd x NInf = NInf"

text \<open>\<^verbatim>\<open>x < y\<close> of two floats: false as soon as one of them is a NaN.\<close>

fun fless :: "pyfloat \<Rightarrow> pyfloat \<Rightarrow> bool" where
  "fless (Fin x) (Fin y) = (x < y)"
| "fless (Fin x) PInf = True"
| "fless NInf (Fin y) = True"
| "fless NInf PInf = True"
| "fless x y = False"

text \<open>
  The number in a JSON value: an int (a \<^verbatim>\<open>bool\<close> counts as the int 0 or 1, as in
  Python) or a float; the other values are not numbers.
\<close>

datatype pynum = IntNum int | FloatNum pyfloat

fun num_of :: "json \<Rightarrow> pynum option" where
  "num_of (JInt n) = Some (IntNum n)"
| "num_of (JBool b) = Some (IntNum (if b then 1 else 0))"
| "num_of (JFloat f) = Some (FloatNum f)"
| "num_of v = None"

fun as_float :: "pynum \<Rightarrow> error + pyfloat" where
  "as_float (IntNum n) = to_float n"
| "as_float (FloatNum f) = Inr f"

text \<open>
  \<^verbatim>\<open>a + b\<close> on JSON values. Two ints add exactly. When one operand is a float the other
  is converted to a float first (\<^verbatim>\<open>OverflowError\<close> for an int that is too large) and the
  sum is rounded. Two strings and two lists concatenate. Everything else is a
  \<^verbatim>\<open>TypeError\<close>.
\<close>

definition py_add :: "json \<Rightarrow> json \<Rightarrow> error + json" where
  "py_add a b =
     (case (num_of a, num_of b) of
        (Some (IntNum i), Some (IntNum j)) \<Rightarrow> Inr (JInt (i + j))
      | (Some x, Some y) \<Rightarrow>
          (case as_float x of
             Inl e \<Rightarrow> Inl e
           | Inr fx \<Rightarrow>
               (case as_float y of
                  Inl e \<Rightarrow> Inl e
                | Inr fy \<Rightarrow> Inr (JFloat (fadd fx fy))))
      | _ \<Rightarrow>
          (case (a, b) of
             (JStr s, JStr t) \<Rightarrow> Inr (JStr (s @ t))
           | (JArr xs, JArr ys) \<Rightarrow> Inr (JArr (xs @ ys))
           | _ \<Rightarrow> Inl TypeError))"

text \<open>
  \<^verbatim>\<open>v < now\<close> where \<open>now\<close> is a reading of \<^verbatim>\<open>time.time()\<close>, a finite float. An int
  is compared with a float exactly, without conversion; a value that is not a number
  cannot be compared with a float (\<^verbatim>\<open>TypeError\<close>).
\<close>

definition py_less_float :: "json \<Rightarrow> real \<Rightarrow> error + bool" where
  "py_less_float v now =
     (case num_of v of
        Some (IntNum i) \<Rightarrow> Inr (of_int i < now)
      | Some (FloatNum f) \<Rightarrow> Inr (fless f (Fin now))
      | None \<Rightarrow> Inl TypeError)"

section \<open>The on-disk TTL cache of tmdb_client.py\<close>

definition CACHE_TTL :: int where
  "CACHE_TTL = 60 * 60"

text \<open>
  The cache file: missing, present but not readable as JSON (an I/O error on reading or
  a parse error), or holding a parsed JSON document. \<open>writable\<close> tells whether opening
  the file for writing succeeds; a failed write leaves the file as it was.
\<close>

datatype file_state = Missing | Unreadable | Parsed json

record fs =
  content :: file_state
  writable :: bool

text \<open>
  The test of one entry in \<^verbatim>\<open>_load_cache\<close>:
  \<^verbatim>\<open>e.get('ts', 0) + e.get('ttl', CACHE_TTL) < now\<close>, the sum first, then the
  comparison, each as Python computes it.
\<close>

definition entry_deadline :: "dict \<Rightarrow> error + json" where
  "entry_deadline e =
     py_add (dict_get_default e ''ts'' (JInt 0)) (dict_get_default e ''ttl'' (JInt CACHE_TTL))"

definition expired :: "real \<Rightarrow> dict \<Rightarrow> error + bool" where
  "expired now e =
     (case entry_deadline e of
        Inl err \<Rightarrow> Inl err
      | Inr s \<Rightarrow> py_less_float s now)"

text \<open>
  The loop \<^verbatim>\<open>for k in keys\<close> of \<^verbatim>\<open>_load_cache\<close>, over the snapshot of the keys, with the
  dict and the flag \<^verbatim>\<open>changed\<close> as the loop state. A false entry is skipped; a true entry
  that is not a dict has no \<^verbatim>\<open>get\<close> (\<^verbatim>\<open>AttributeError\<close>).
\<close>

fun purge :: "real \<Rightarrow> string list \<Rightarrow> dict \<Rightarrow> bool \<Rightarrow> error + (dict \<times> bool)" where
  "purge now [] data changed = Inr (data, changed)"
| "purge now (k # ks) data changed =
     (let e = dict_get data k in
      if \<not> truthy e then purge now ks data changed
      else (case e of
              JObj ed \<Rightarrow>
                (case expired now ed of
                   Inl err \<Rightarrow> Inl err
                 | Inr ex \<Rightarrow>
                     if ex then purge now ks (AList.delete k data) True
                     else purge now ks data changed)
            | _ \<Rightarrow> Inl AttributeError))"

text \<open>
  \<^verbatim>\<open>_load_cache\<close>: every exception inside the \<^verbatim>\<open>try\<close> gives the empty dict, also a
  failure of the rewrite of the pruned file.
\<close>

definition load_cache :: "fs \<Rightarrow> real \<Rightarrow> dict \<times> fs" where
  "load_cache f now =
     (case content f of
        Missing \<Rightarrow> ([], f)
      | Unreadable \<Rightarrow> ([], f)
      | Parsed (JObj d) \<Rightarrow>
          (case purge now (map fst d) d False of
             Inl err \<Rightarrow> ([], f)
           | Inr (d', changed) \<Rightarrow>
               if changed then
                 (if writable f then (d', f\<lparr>content := Parsed (JObj d')\<rparr>) else ([], f))
               else (d', f))
      | Parsed _ \<Rightarrow> ([], f))"

text \<open>\<^verbatim>\<open>_save_cache\<close>: a failed write is swallowed.\<close>

definition save_cache :: "fs \<Rightarrow> dict \<Rightarrow> fs" where
  "save_cache f c = (if writable f then f\<lparr>content := Parsed (JObj c)\<rparr> else f)"

text \<open>
  \<^verbatim>\<open>_cache_get\<close>: \<open>JNull\<close> is Python's \<^verbatim>\<open>None\<close>, the value that reports "absent".
\<close>

definition cache_get :: "fs \<Rightarrow> real \<Rightarrow> string \<Rightarrow> (error + json) \<times> fs" where
  "cache_get f now key =
     (let (c, f') = load_cache f now;
          entry = dict_get c key
      in if \<not> truthy entry then (Inr JNull, f')
         else (case entry of
                 JObj e \<Rightarrow> (Inr (dict_get e ''value''), f')
               | _ \<Rightarrow> (Inl AttributeError, f')))"

text \<open>
  \<^verbatim>\<open>_cache_set\<close>. The clock is read once for the load and once for the stamp; the two
  readings are taken as the same instant \<open>now\<close>.
\<close>

definition cache_entry :: "real \<Rightarrow> int \<Rightarrow> json \<Rightarrow> json" where
  "cache_entry ts ttl v = JObj [(''ts'', JFloat (Fin ts)), (''ttl'', JInt ttl), (''value'', v)]"

definition cache_set :: "fs \<Rightarrow> real \<Rightarrow> string \<Rightarrow> json \<Rightarrow> int \<Rightarrow> fs" where
  "cache_set f now key v ttl =
     (let (c, f') = load_cache f now
      in save_cache f' (AList.update key (cache_entry now ttl v) c))"

text \<open>
  Three readings of an entry, used to state what the loop of \<^verbatim>\<open>_load_cache\<close> does:
  an entry is \<open>doomed\<close> when the loop deletes it, \<open>settled\<close> when the loop passes over it,
  and well formed when the loop can test it without an exception (it is false, or a dict
  whose \<^verbatim>\<open>ts\<close> and \<^verbatim>\<open>ttl\<close> add up to a number).
\<close>

definition doomed :: "real \<Rightarrow> dict \<Rightarrow> string \<Rightarrow> bool" where
  "doomed now d k =
     (case dict_get d k of JObj ed \<Rightarrow> ed \<noteq> [] \<and> expired now ed = Inr True | _ \<Rightarrow> False)"

definition settled :: "real \<Rightarrow> dict \<Rightarrow> string \<Rightarrow> bool" where
  "settled now d k =
     (case dict_get d k of JObj ed \<Rightarrow> ed = [] \<or> expired now ed = Inr False | e \<Rightarrow> \<not> truthy e)"

definition well_formed_entry :: "json \<Rightarrow> bool" where
  "well_formed_entry e =
     (case e of
        JObj ed \<Rightarrow> ed = [] \<or>
          (case entry_deadline ed of Inl err \<Rightarrow> False | Inr s \<Rightarrow> num_of s \<noteq> None)
      | _ \<Rightarrow> \<not> truthy e)"

section \<open>HTTP and the runtime\<close>

text \<open>
  One HTTP exchange: the request as the client builds it, and what comes back. A response
  carries its status, its text and the result of \<^verbatim>\<open>resp.json()\<close> (\<open>None\<close> when the text is
  not JSON). The retries of the mounted adapter are inside one exchange.

  The runtime gives the provider's answer to every request and Python's \<^verbatim>\<open>str()\<close> of a
  value that is not a string, which an f-string needs (the rendering of floats, lists and
  dicts is not modelled; that of a string is the string itself).
\<close>

datatype http_method = GET | POST | PUT | PATCH

record request =
  meth :: http_method
  url :: string
  params :: dict
  payload :: json

record response =
  status_code :: int
  body_text :: string
  json_body :: "json option"

datatype outcome = ConnectionFailed | Response response

record runtime =
  provider :: "request \<Rightarrow> outcome"
  str_of :: "json \<Rightarrow> string"

definition format_val :: "runtime \<Rightarrow> json \<Rightarrow> string" where
  "format_val rt v = (case v of JStr s \<Rightarrow> s | _ \<Rightarrow> str_of rt v)"

text \<open>\<^verbatim>\<open>str(n)\<close> of a Python \<^verbatim>\<open>int\<close>, in decimal.\<close>

fun digits :: "nat \<Rightarrow> string" where
  "digits n =
     (if n < 10 then [char_of (48 + n)]
      else digits (n div 10) @ [char_of (48 + n mod 10)])"

declare digits.simps [simp del]

definition str_int :: "int \<Rightarrow> string" where
  "str_int i = (if i < 0 then CHR ''-'' # digits (nat (- i)) else digits (nat i))"

text \<open>
  Iterating a value (\<^verbatim>\<open>for x in v\<close>): a list gives its items, a dict its keys, a string
  its characters; \<^verbatim>\<open>None\<close>, a bool and a number are not iterable.
\<close>

fun py_iter :: "json \<Rightarrow> error + json list" where
  "py_iter (JArr xs) = Inr xs"
| "py_iter (JObj kvs) = Inr (map (\<lambda>kv. JStr (fst kv)) kvs)"
| "py_iter (JStr s) = Inr (map (\<lambda>c. JStr [c]) s)"
| "py_iter _ = Inl TypeError"

text \<open>A module-level key is a string or \<^verbatim>\<open>None\<close>; \<^verbatim>\<open>not KEY\<close> holds for both \<^verbatim>\<open>None\<close> and \<^verbatim>\<open>''\<close>.\<close>

definition key_set :: "string option \<Rightarrow> bool" where
  "key_set k = (case k of None \<Rightarrow> False | Some s \<Rightarrow> s \<noteq> [])"

definition key_json :: "string option \<Rightarrow> json" where
  "key_json k = (case k of None \<Rightarrow> JNull | Some s \<Rightarrow> JStr s)"

section \<open>tmdb_client.py\<close>

record tmdb_config =
  TMDB_API_KEY :: "string option"
  OMDB_API_KEY :: "string option"

record world =
  disk :: fs
  http_log :: "request list"

definition API_BASE :: string where
  "API_BASE = ''https://api.themoviedb.org/3''"

definition IMAGE_BASE :: string where
  "IMAGE_BASE = ''https://image.tmdb.org/t/p''"

definition POSTER_SIZE :: string where
  "POSTER_SIZE = ''w500''"

text \<open>\<^verbatim>\<open>p = {'api_key': TMDB_API_KEY}; p.update(params)\<close>\<close>

definition dict_update_all :: "dict \<Rightarrow> dict \<Rightarrow> dict" where
  "dict_update_all p ps = fold (\<lambda>kv acc. AList.update (fst kv) (snd kv) acc) ps p"

text \<open>
  \<^verbatim>\<open>_req\<close>. The request is appended to the log at \<^verbatim>\<open>_session.get\<close>; the guard on the key
  comes before it.
\<close>

definition req ::
  "tmdb_config \<Rightarrow> runtime \<Rightarrow> request list \<Rightarrow> string \<Rightarrow> dict \<Rightarrow> (error + json) \<times> request list" where
  "req cfg rt lg path ps =
     (if \<not> key_set (TMDB_API_KEY cfg) then (Inl (TMDbError KeyNotSet), lg)
      else
        let p = dict_update_all [(''api_key'', key_json (TMDB_API_KEY cfg))] ps;
            rq = \<lparr>meth = GET, url = API_BASE @ path, params = p, payload = JNull\<rparr>;
            lg' = lg @ [rq]
        in (case provider rt rq of
              ConnectionFailed \<Rightarrow> (Inl (TMDbError NetworkError), lg')
            | Response r \<Rightarrow>
                if status_code r \<noteq> 200 then
                  (case json_body r of
                     Some (JObj j) \<Rightarrow>
                       (Inl (TMDbError (BadStatus (status_code r)
                          (py_or (dict_get j ''status_message'') (JObj j)))), lg')
                   | _ \<Rightarrow> (Inl (TMDbError (BadStatus (status_code r) (JStr (body_text r)))), lg'))
                else
                  (case json_body r of
                     None \<Rightarrow> (Inl (TMDbError DecodeFailed), lg')
                   | Some j \<Rightarrow> (Inr j, lg'))))"

text \<open>\<^verbatim>\<open>_poster_url\<close>\<close>

definition poster_url :: "runtime \<Rightarrow> json \<Rightarrow> json" where
  "poster_url rt path =
     (if \<not> truthy path then JNull
      else JStr (IMAGE_BASE @ ''/'' @ POSTER_SIZE @ format_val rt path))"

text \<open>\<^verbatim>\<open>data.get('results', [])\<close> and the iteration over it.\<close>

definition results_of :: "json \<Rightarrow> error + json list" where
  "results_of data =
     (case data of
        JObj d \<Rightarrow> py_iter (dict_get_default d ''results'' (JArr []))
      | _ \<Rightarrow> Inl AttributeError)"

text \<open>The key of a search in the cache: \<^verbatim>\<open>f"search:{kind}:{query}:{page}"\<close>.\<close>

definition search_key :: "string \<Rightarrow> string \<Rightarrow> int \<Rightarrow> string" where
  "search_key kind query page = ''search:'' @ kind @ '':'' @ query @ '':'' @ str_int page"

text \<open>The summary appended for one surviving item of a multi search.\<close>

definition summary_multi :: "runtime \<Rightarrow> dict \<Rightarrow> json \<Rightarrow> json" where
  "summary_multi rt it typ =
     JObj [(''type'', typ),
           (''id'', dict_get it ''id''),
           (''title'', if typ = JStr ''movie'' then dict_get it ''title'' else dict_get it ''name''),
           (''release_date'', py_or (dict_get it ''release_date'') (dict_get it ''first_air_date'')),
           (''overview'', dict_get it ''overview''),
           (''poster'', poster_url rt (dict_get it ''poster_path'')),
           (''popularity'', dict_get it ''popularity''),
           (''tmdb_raw'', JObj it)]"

text \<open>The loop of the branch \<^verbatim>\<open>kind in ('multi', 'both')\<close>, with \<^verbatim>\<open>results\<close> as its state.\<close>

fun multi_loop :: "runtime \<Rightarrow> json list \<Rightarrow> json list \<Rightarrow> error + json list" where
  "multi_loop rt [] results = Inr results"
| "multi_loop rt (it # its) results =
     (case it of
        JObj d \<Rightarrow>
          (let typ = dict_get d ''media_type'' in
           if typ \<noteq> JStr ''movie'' \<and> typ \<noteq> JStr ''tv'' then multi_loop rt its results
           else multi_loop rt its (results @ [summary_multi rt d typ]))
      | _ \<Rightarrow> Inl AttributeError)"

text \<open>The summary and the loop of the other branch: the type is the \<^verbatim>\<open>kind\<close> argument.\<close>

definition summary_kind :: "runtime \<Rightarrow> string \<Rightarrow> dict \<Rightarrow> json" where
  "summary_kind rt kind it =
     JObj [(''type'', JStr kind),
           (''id'', dict_get it ''id''),
           (''title'', py_or (dict_get it ''title'') (dict_get it ''name'')),
           (''release_date'', py_or (dict_get it ''release_date'') (dict_get it ''first_air_date'')),
           (''overview'', dict_get it ''overview''),
           (''poster'', poster_url rt (dict_get it ''poster_path'')),
           (''popularity'', dict_get it ''popularity''),
           (''tmdb_raw'', JObj it)]"

fun kind_loop :: "runtime \<Rightarrow> string \<Rightarrow> json list \<Rightarrow> json list \<Rightarrow> error + json list" where
  "kind_loop rt kind [] results = Inr results"
| "kind_loop rt kind (it # its) results =
     (case it of
        JObj d \<Rightarrow> kind_loop rt kind its (results @ [summary_kind rt kind d])
      | _ \<Rightarrow> Inl AttributeError)"

definition search_params :: "string \<Rightarrow> int \<Rightarrow> dict" where
  "search_params query page =
     [(''query'', JStr query), (''page'', JInt page), (''include_adult'', JBool False)]"

text \<open>The part of \<^verbatim>\<open>search_multi\<close> after a cache miss and before the store.\<close>

definition search_fetch ::
  "tmdb_config \<Rightarrow> runtime \<Rightarrow> request list \<Rightarrow> string \<Rightarrow> string \<Rightarrow> int
     \<Rightarrow> (error + json list) \<times> request list" where
  "search_fetch cfg rt lg query kind page =
     (if kind = ''multi'' \<or> kind = ''both'' then
        (case req cfg rt lg ''/search/multi'' (search_params query page) of
           (Inl e, lg') \<Rightarrow> (Inl e, lg')
         | (Inr data, lg') \<Rightarrow>
             (case results_of data of
                Inl e \<Rightarrow> (Inl e, lg')
              | Inr items \<Rightarrow> (multi_loop rt items [], lg')))
      else
        (let path = (if kind = ''movie'' then ''/search/movie'' else ''/search/tv'') in
         case req cfg rt lg path (search_params query page) of
           (Inl e, lg') \<Rightarrow> (Inl e, lg')
         | (Inr data, lg') \<Rightarrow>
             (case results_of data of
                Inl e \<Rightarrow> (Inl e, lg')
              | Inr items \<Rightarrow> (kind_loop rt kind items [], lg'))))"

text \<open>
  \<^verbatim>\<open>search_multi\<close>. \<open>t_get\<close> is the clock at the lookup in the cache and \<open>t_set\<close> the
  clock at the store, after the call to the provider.
\<close>

definition search_multi ::
  "tmdb_config \<Rightarrow> runtime \<Rightarrow> world \<Rightarrow> real \<Rightarrow> real \<Rightarrow> string \<Rightarrow> string \<Rightarrow> int
     \<Rightarrow> (error + json) \<times> world" where
  "search_multi cfg rt w t_get t_set query kind page =
     (let key = search_key kind query page;
          (cached, f1) = cache_get (disk w) t_get key;
          w1 = w\<lparr>disk := f1\<rparr>
      in case cached of
           Inl e \<Rightarrow> (Inl e, w1)
         | Inr c \<Rightarrow>
             if c \<noteq> JNull then (Inr c, w1)
             else
               (case search_fetch cfg rt (http_log w1) query kind page of
                  (Inl e, lg) \<Rightarrow> (Inl e, w1\<lparr>http_log := lg\<rparr>)
                | (Inr results, lg) \<Rightarrow>
                    (Inr (JArr results),
                     w1\<lparr>disk := cache_set f1 t_set key (JArr results) CACHE_TTL,
                        http_log := lg\<rparr>)))"

text \<open>\<^verbatim>\<open>_get_awards_from_omdb\<close>: every failure gives \<^verbatim>\<open>None\<close>.\<close>

definition omdb_request :: "tmdb_config \<Rightarrow> json \<Rightarrow> request" where
  "omdb_request cfg imdb_id =
     \<lparr>meth = GET, url = ''http://www.omdbapi.com/'',
      params = [(''i'', imdb_id), (''apikey'', key_json (OMDB_API_KEY cfg))],
      payload = JNull\<rparr>"

definition get_awards_from_omdb ::
  "tmdb_config \<Rightarrow> runtime \<Rightarrow> request list \<Rightarrow> json \<Rightarrow> json \<times> request list" where
  "get_awards_from_omdb cfg rt lg imdb_id =
     (if \<not> truthy imdb_id \<or> \<not> key_set (OMDB_API_KEY cfg) then (JNull, lg)
      else
        let rq = omdb_request cfg imdb_id;
            lg' = lg @ [rq]
        in (case provider rt rq of
              ConnectionFailed \<Rightarrow> (JNull, lg')
            | Response r \<Rightarrow>
                if status_code r \<noteq> 200 then (JNull, lg')
                else (case json_body r of
                        Some (JObj j) \<Rightarrow> (dict_get j ''Awards'', lg')
                      | _ \<Rightarrow> (JNull, lg'))))"

text \<open>\<^verbatim>\<open>[g.get('name') for g in data.get('genres', [])]\<close>\<close>

fun genre_names :: "json list \<Rightarrow> error + json list" where
  "genre_names [] = Inr []"
| "genre_names (g # gs) =
     (case g of
        JObj d \<Rightarrow> (case genre_names gs of Inl e \<Rightarrow> Inl e | Inr ns \<Rightarrow> Inr (dict_get d ''name'' # ns))
      | _ \<Rightarrow> Inl AttributeError)"

text \<open>The dict \<^verbatim>\<open>out\<close> of \<^verbatim>\<open>get_movie_details\<close>, built in the order of the source.\<close>

definition movie_out :: "runtime \<Rightarrow> json \<Rightarrow> error + dict" where
  "movie_out rt data =
     (case data of
        JObj d \<Rightarrow>
          (case py_iter (dict_get_default d ''genres'' (JArr [])) of
             Inl e \<Rightarrow> Inl e
           | Inr gs \<Rightarrow>
               (case genre_names gs of
                  Inl e \<Rightarrow> Inl e
                | Inr names \<Rightarrow>
                    (case dict_get_default d ''external_ids'' (JObj []) of
                       JObj x \<Rightarrow>
                         Inr [(''type'', JStr ''movie''),
                              (''id'', dict_get d ''id''),
                              (''title'', dict_get d ''title''),
                              (''overview'', dict_get d ''overview''),
                              (''poster'', poster_url rt (dict_get d ''poster_path'')),
                              (''backdrop'', poster_url rt (dict_get d ''backdrop_path'')),
                              (''genres'', JArr names),
                              (''runtime'', dict_get d ''runtime''),
                              (''rating'', dict_get d ''vote_average''),
                              (''credits'', dict_get_default d ''credits'' (JObj [])),
                              (''imdb_id'', dict_get x ''imdb_id'')]
                     | _ \<Rightarrow> Inl AttributeError)))
      | _ \<Rightarrow> Inl AttributeError)"

text \<open>
  The enrichment step of \<^verbatim>\<open>get_movie_details\<close>:
  \<^verbatim>\<open>if out.get('imdb_id') and OMDB_API_KEY: out['awards'] = _get_awards_from_omdb(...)\<close>.
\<close>

definition enrich ::
  "tmdb_config \<Rightarrow> runtime \<Rightarrow> request list \<Rightarrow> dict \<Rightarrow> dict \<times> request list" where
  "enrich cfg rt lg out =
     (if truthy (dict_get out ''imdb_id'') \<and> key_set (OMDB_API_KEY cfg) then
        (let (aw, lg') = get_awards_from_omdb cfg rt lg (dict_get out ''imdb_id'')
         in (AList.update ''awards'' aw out, lg'))
      else (out, lg))"

definition get_movie_details ::
  "tmdb_config \<Rightarrow> runtime \<Rightarrow> world \<Rightarrow> real \<Rightarrow> real \<Rightarrow> int \<Rightarrow> (error + json) \<times> world" where
  "get_movie_details cfg rt w t_get t_set tmdb_id =
     (let key = ''movie:'' @ str_int tmdb_id;
          (cached, f1) = cache_get (disk w) t_get key;
          w1 = w\<lparr>disk := f1\<rparr>
      in case cached of
           Inl e \<Rightarrow> (Inl e, w1)
         | Inr c \<Rightarrow>
             if c \<noteq> JNull then (Inr c, w1)
             else
               (case req cfg rt (http_log w1) (''/movie/'' @ str_int tmdb_id)
                       [(''append_to_response'', JStr ''credits,external_ids'')] of
                  (Inl e, lg) \<Rightarrow> (Inl e, w1\<lparr>http_log := lg\<rparr>)
                | (Inr data, lg) \<Rightarrow>
                    (case movie_out rt data of
                       Inl e \<Rightarrow> (Inl e, w1\<lparr>http_log := lg\<rparr>)
                     | Inr out \<Rightarrow>
                         (let (out', lg') = enrich cfg rt lg out
                          in (Inr (JObj out'),
                              w1\<lparr>disk := cache_set f1 t_set key (JObj out') CACHE_TTL,
                                 http_log := lg'\<rparr>)))))"

text \<open>\<^verbatim>\<open>get_trending\<close>: the two guards, then the request, then the loop.\<close>

definition quoted :: "string \<Rightarrow> string" where
  "quoted s = [CHR 0x27] @ s @ [CHR 0x27]"

definition MEDIA_TYPE_MSG :: string where
  "MEDIA_TYPE_MSG =
     ''media_type must be '' @ quoted ''all'' @ '', '' @ quoted ''movie'' @ '' or '' @ quoted ''tv''"

definition TIME_WINDOW_MSG :: string where
  "TIME_WINDOW_MSG = ''time_window must be '' @ quoted ''day'' @ '' or '' @ quoted ''week''"

definition trending_item :: "string \<Rightarrow> json \<Rightarrow> error + json" where
  "trending_item media_type r =
     (case r of
        JObj d \<Rightarrow>
          (let title = py_or (dict_get d ''title'') (dict_get d ''name'');
               release = py_or (py_or (dict_get d ''release_date'') (dict_get d ''first_air_date''))
                               (JStr [])
           in case (if truthy (dict_get d ''poster_path'') then
                      (case dict_get d ''poster_path'' of
                         JStr s \<Rightarrow> Inr (JStr (''https://image.tmdb.org/t/p/w342'' @ s))
                       | _ \<Rightarrow> Inl TypeError)
                    else Inr JNull) of
                Inl e \<Rightarrow> Inl e
              | Inr poster \<Rightarrow>
                  Inr (JObj [(''id'', dict_get d ''id''),
                             (''media_type'',
                                if media_type \<noteq> ''all''
                                then py_or (dict_get d ''media_type'') (JStr media_type)
                                else dict_get d ''media_type''),
                             (''title'', title),
                             (''release_date'', release),
                             (''poster_path'', dict_get d ''poster_path''),
                             (''poster'', poster),
                             (''popularity'', dict_get d ''popularity''),
                             (''vote_average'', dict_get d ''vote_average''),
                             (''raw'', r)]))
      | _ \<Rightarrow> Inl AttributeError)"

fun trending_loop :: "string \<Rightarrow> json list \<Rightarrow> json list \<Rightarrow> error + json list" where
  "trending_loop media_type [] items = Inr items"
| "trending_loop media_type (r # rs) items =
     (case trending_item media_type r of
        Inl e \<Rightarrow> Inl e
      | Inr item \<Rightarrow> trending_loop media_type rs (items @ [item]))"

definition get_trending ::
  "tmdb_config \<Rightarrow> runtime \<Rightarrow> request list \<Rightarrow> string \<Rightarrow> string \<Rightarrow> int
     \<Rightarrow> (error + json list) \<times> request list" where
  "get_trending cfg rt lg media_type time_window page =
     (if media_type \<notin> {''all'', ''movie'', ''tv''} then (Inl (ValueError MEDIA_TYPE_MSG), lg)
      else if time_window \<notin> {''day'', ''week''} then (Inl (ValueError TIME_WINDOW_MSG), lg)
      else
        (case req cfg rt lg (''/trending/'' @ media_type @ ''/'' @ time_window)
                [(''page'', JInt page)] of
           (Inl e, lg') \<Rightarrow> (Inl e, lg')
         | (Inr data, lg') \<Rightarrow>
             (case results_of data of
                Inl e \<Rightarrow> (Inl e, lg')
              | Inr results \<Rightarrow> (trending_loop media_type results [], lg'))))"

text \<open>
  Reading a normalised item or a raw record: \<^verbatim>\<open>x.get(k)\<close> where \<open>x\<close> is a dict. A raw
  record that \<^verbatim>\<open>get_trending\<close> can normalise is a dict whose \<^verbatim>\<open>poster_path\<close> is false or
  a string; \<open>poster_derived\<close> says how the \<^verbatim>\<open>poster\<close> of an item comes from the record.
\<close>

definition obj_get :: "json \<Rightarrow> string \<Rightarrow> json" where
  "obj_get x k = (case x of JObj d \<Rightarrow> dict_get d k | _ \<Rightarrow> JNull)"

definition is_obj :: "json \<Rightarrow> bool" where
  "is_obj x = (case x of JObj d \<Rightarrow> True | _ \<Rightarrow> False)"

definition movie_or_tv :: "json \<Rightarrow> bool" where
  "movie_or_tv t = (t = JStr ''movie'' \<or> t = JStr ''tv'')"

definition trending_ok :: "json \<Rightarrow> bool" where
  "trending_ok r =
     (case r of
        JObj d \<Rightarrow> (case dict_get d ''poster_path'' of JStr s \<Rightarrow> True | p \<Rightarrow> \<not> truthy p)
      | _ \<Rightarrow> False)"

definition poster_derived :: "json \<Rightarrow> json \<Rightarrow> bool" where
  "poster_derived r item =
     (case obj_get r ''poster_path'' of
        JStr s \<Rightarrow> obj_get item ''poster'' =
                   (if s = [] then JNull else JStr (''https://image.tmdb.org/t/p/w342'' @ s))
      | _ \<Rightarrow> obj_get item ''poster'' = JNull)"

section \<open>firebase_auth.py\<close>

text \<open>
  \<^verbatim>\<open>FirebaseAuthClient\<close>: \<open>user\<close> is \<open>JNull\<close> (Python's \<^verbatim>\<open>None\<close>) or the payload of the
  last successful sign-in.
\<close>

record client =
  api_key :: "string option"
  db_url :: string
  user :: json

text \<open>An f-string renders a key that is \<^verbatim>\<open>None\<close> as the text \<^verbatim>\<open>None\<close>.\<close>

definition key_str :: "string option \<Rightarrow> string" where
  "key_str k = (case k of None \<Rightarrow> ''None'' | Some s \<Rightarrow> s)"

text \<open>\<^verbatim>\<open>db_url.rstrip("/")\<close>\<close>

definition rstrip_slash :: "string \<Rightarrow> string" where
  "rstrip_slash s = rev (dropWhile (\<lambda>c. c = CHR ''/'') (rev s))"

definition init_client :: "string option \<Rightarrow> string \<Rightarrow> client" where
  "init_client k u = \<lparr>api_key = k, db_url = rstrip_slash u, user = JNull\<rparr>"

definition sign_in_request :: "client \<Rightarrow> string \<Rightarrow> string \<Rightarrow> request" where
  "sign_in_request c email password =
     \<lparr>meth = POST,
      url = ''https://identitytoolkit.googleapis.com/v1/accounts:signInWithPassword?key=''
              @ key_str (api_key c),
      params = [],
      payload = JObj [(''email'', JStr email), (''password'', JStr password),
                      (''returnSecureToken'', JBool True)]\<rparr>"

definition sign_in ::
  "runtime \<Rightarrow> client \<Rightarrow> request list \<Rightarrow> string \<Rightarrow> string
     \<Rightarrow> (error + json) \<times> client \<times> request list" where
  "sign_in rt c lg email password =
     (let rq = sign_in_request c email password;
          lg' = lg @ [rq]
      in case provider rt rq of
           ConnectionFailed \<Rightarrow> (Inl RequestException, c, lg')
         | Response r \<Rightarrow>
             (case json_body r of
                None \<Rightarrow> (Inl JSONDecodeError, c, lg')
              | Some data \<Rightarrow>
                  if status_code r \<noteq> 200 then
                    (case data of
                       JObj d \<Rightarrow>
                         (case dict_get_default d ''error'' (JObj []) of
                            JObj e \<Rightarrow>
                              (Inl (FirebaseAuthError
                                      (dict_get_default e ''message'' (JStr ''Sign in failed''))),
                               c, lg')
                          | _ \<Rightarrow> (Inl AttributeError, c, lg'))
                     | _ \<Rightarrow> (Inl AttributeError, c, lg'))
                  else (Inr data, c\<lparr>user := data\<rparr>, lg')))"

definition sign_out :: "client \<Rightarrow> client" where
  "sign_out c = c\<lparr>user := JNull\<rparr>"

definition is_authenticated :: "client \<Rightarrow> bool" where
  "is_authenticated c = (user c \<noteq> JNull)"

text \<open>The properties \<^verbatim>\<open>id_token\<close> and \<^verbatim>\<open>user_id\<close>: \<^verbatim>\<open>self.user.get(...) if self.user else None\<close>.\<close>

definition user_field :: "client \<Rightarrow> string \<Rightarrow> error + json" where
  "user_field c k =
     (if truthy (user c) then
        (case user c of JObj d \<Rightarrow> Inr (dict_get d k) | _ \<Rightarrow> Inl AttributeError)
      else Inr JNull)"

definition id_token :: "client \<Rightarrow> error + json" where
  "id_token c = user_field c ''idToken''"

definition user_id :: "client \<Rightarrow> error + json" where
  "user_id c = user_field c ''localId''"

text \<open>\<^verbatim>\<open>_user_path\<close>\<close>

definition user_path :: "runtime \<Rightarrow> client \<Rightarrow> string \<Rightarrow> error + string" where
  "user_path rt c path =
     (case user_id c of
        Inl e \<Rightarrow> Inl e
      | Inr uid \<Rightarrow>
          if \<not> truthy uid then Inl (FirebaseAuthError (JStr ''No authenticated user''))
          else Inr (db_url c @ ''/users/'' @ format_val rt uid @ ''/'' @ path @ ''.json''))"

definition add_to_watchlist ::
  "runtime \<Rightarrow> client \<Rightarrow> request list \<Rightarrow> string \<Rightarrow> json \<Rightarrow> (error + json) \<times> request list" where
  "add_to_watchlist rt c lg imdb_id movie_data =
     (case id_token c of
        Inl e \<Rightarrow> (Inl e, lg)
      | Inr tok \<Rightarrow>
          if \<not> truthy tok then (Inl (FirebaseAuthError (JStr ''User not authenticated'')), lg)
          else
            (case user_path rt c (''watchlist/'' @ imdb_id) of
               Inl e \<Rightarrow> (Inl e, lg)
             | Inr p \<Rightarrow>
                 (let rq = \<lparr>meth = PUT, url = p @ ''?auth='' @ format_val rt tok,
                            params = [], payload = movie_data\<rparr>;
                      lg' = lg @ [rq]
                  in case provider rt rq of
                       ConnectionFailed \<Rightarrow> (Inl RequestException, lg')
                     | Response r \<Rightarrow>
                         if status_code r \<noteq> 200 \<and> status_code r \<noteq> 204
                         then (Inl (FirebaseAuthError (JStr ''Failed to save to watchlist'')), lg')
                         else (Inr JNull, lg'))))"

definition get_watchlist ::
  "runtime \<Rightarrow> client \<Rightarrow> request list \<Rightarrow> (error + json) \<times> request list" where
  "get_watchlist rt c lg =
     (case id_token c of
        Inl e \<Rightarrow> (Inl e, lg)
      | Inr tok \<Rightarrow>
          if \<not> truthy tok then (Inl (FirebaseAuthError (JStr ''User not authenticated'')), lg)
          else
            (case user_path rt c ''watchlist'' of
               Inl e \<Rightarrow> (Inl e, lg)
             | Inr p \<Rightarrow>
                 (let rq = \<lparr>meth = GET, url = p @ ''?auth='' @ format_val rt tok,
                            params = [], payload = JNull\<rparr>;
                      lg' = lg @ [rq]
                  in case provider rt rq of
                       ConnectionFailed \<Rightarrow> (Inl RequestException, lg')
                     | Response r \<Rightarrow>
                         if status_code r \<noteq> 200
                         then (Inl (FirebaseAuthError (JStr ''Failed to fetch watchlist'')), lg')
                         else (case json_body r of
                                 None \<Rightarrow> (Inl JSONDecodeError, lg')
                               | Some data \<Rightarrow> (Inr (py_or data (JObj [])), lg')))))"

section \<open>config.py and the start of the application\<close>

text \<open>The process environment after \<^verbatim>\<open>load_dotenv\<close>: \<^verbatim>\<open>os.getenv(name)\<close> is \<open>env name\<close>.\<close>

type_synonym environ = "string \<Rightarrow> string option"

text \<open>\<^verbatim>\<open>_get\<close> of config.py\<close>

definition config_get ::
  "environ \<Rightarrow> string \<Rightarrow> bool \<Rightarrow> string option \<Rightarrow> error + string option" where
  "config_get env name required dflt =
     (let v = (case env name of None \<Rightarrow> dflt | Some s \<Rightarrow> Some s)
      in if required \<and> \<not> key_set v
         then Inl (ConfigError (''Missing required environment variable: '' @ name))
         else Inr v)"

text \<open>
  Running the body of config.py gives the module's names with their values, or the
  \<^verbatim>\<open>ConfigError\<close> of the first required variable that is missing. \<open>here\<close> is the
  directory of config.py.
\<close>

type_synonym namespace = "(string \<times> string option) list"

definition config_module :: "string \<Rightarrow> environ \<Rightarrow> error + namespace" where
  "config_module here env =
     (case config_get env ''OMDB_API_KEY'' True None of
        Inl e \<Rightarrow> Inl e
      | Inr omdb \<Rightarrow>
          (case config_get env ''FIREBASE_API_KEY'' True None of
             Inl e \<Rightarrow> Inl e
           | Inr fkey \<Rightarrow>
               (case config_get env ''FIREBASE_DB_URL'' True None of
                  Inl e \<Rightarrow> Inl e
                | Inr furl \<Rightarrow>
                    (case config_get env ''PERPLEXITY_API_KEY'' False None of
                       Inl e \<Rightarrow> Inl e
                     | Inr pkey \<Rightarrow>
                         Inr [(''BASE_DIR'', Some here),
                              (''env_path'', Some (here @ ''/.env'')),
                              (''OMDB_API_KEY'', omdb),
                              (''FIREBASE_API_KEY'', fkey),
                              (''FIREBASE_DB_URL'', furl),
                              (''PERPLEXITY_API_KEY'', pkey)]))))"

text \<open>\<^verbatim>\<open>from config import a, b, ...\<close>: a name the module does not define is an \<^verbatim>\<open>ImportError\<close>.\<close>

fun import_from :: "error + namespace \<Rightarrow> string list \<Rightarrow> error + string option list" where
  "import_from (Inl e) names = Inl e"
| "import_from (Inr ns) [] = Inr []"
| "import_from (Inr ns) (n # names) =
     (case map_of ns n of
        None \<Rightarrow> Inl ImportError
      | Some v \<Rightarrow>
          (case import_from (Inr ns) names of Inl e \<Rightarrow> Inl e | Inr vs \<Rightarrow> Inr (v # vs)))"

text \<open>
  The head of tmdb_client.py: the import from config inside \<^verbatim>\<open>try\<close>, and the fallback to
  the environment on any exception.
\<close>

definition tmdb_client_module :: "string \<Rightarrow> environ \<Rightarrow> tmdb_config" where
  "tmdb_client_module here env =
     (case import_from (config_module here env) [''TMDB_API_KEY'', ''BASE_DIR'', ''OMDB_API_KEY''] of
        Inr [t, b, ob] \<Rightarrow> \<lparr>TMDB_API_KEY = t, OMDB_API_KEY = ob\<rparr>
      | _ \<Rightarrow> \<lparr>TMDB_API_KEY = env ''TMDB_API_KEY'', OMDB_API_KEY = env ''OMDB_API_KEY''\<rparr>)"

text \<open>
  ai_client.py: \<^verbatim>\<open>is_enabled\<close>. For \<^verbatim>\<open>str.strip\<close> a character of the model stands
  for the code point of the same number, U+0000 to U+00FF; the white space among these
  code points is what \<^verbatim>\<open>str.isspace\<close> accepts there.
\<close>

definition py_isspace :: "char \<Rightarrow> bool" where
  "py_isspace c = (c \<in> {CHR '' '', CHR 0x09, CHR 0x0A, CHR 0x0B, CHR 0x0C, CHR 0x0D,
                        CHR 0x1C, CHR 0x1D, CHR 0x1E, CHR 0x1F, CHR 0x85, CHR 0xA0})"

definition strip :: "string \<Rightarrow> string" where
  "strip s = rev (dropWhile py_isspace (rev (dropWhile py_isspace s)))"

definition is_enabled :: "string option \<Rightarrow> bool" where
  "is_enabled k = (case k of None \<Rightarrow> False | Some s \<Rightarrow> strip s \<noteq> [])"

text \<open>
  The start of the application under Streamlit (the guard at the head of main.py passes):
  main.py imports ui, which imports firebase_auth (and with it config), ai_client and
  tmdb_client in this order; \<^verbatim>\<open>AppUI()\<close> then builds the \<^verbatim>\<open>FirebaseAuthClient\<close> from the
  two Firebase settings.
\<close>

record app =
  auth :: client
  tmdb :: tmdb_config
  ai_key :: "string option"

definition startup :: "string \<Rightarrow> environ \<Rightarrow> error + app" where
  "startup here env =
     (case import_from (config_module here env) [''FIREBASE_API_KEY'', ''FIREBASE_DB_URL''] of
        Inl e \<Rightarrow> Inl e
      | Inr fb \<Rightarrow>
          (case import_from (config_module here env) [''PERPLEXITY_API_KEY''] of
             Inl e \<Rightarrow> Inl e
           | Inr ai \<Rightarrow>
               (let tm = tmdb_client_module here env in
                case (fb, ai) of
                  ([k, Some u], [a]) \<Rightarrow> Inr \<lparr>auth = init_client k u, tmdb = tm, ai_key = a\<rparr>
                | _ \<Rightarrow> Inl AttributeError)))"

section \<open>Sample inputs\<close>

text \<open>
  Concrete worlds, configurations and provider answers, at which the theorems below are
  instantiated: a machine with no cache file yet, the two keys set or only the metadata
  key, a multi search answered with a movie, a person and a series, a search with no
  match, and a movie whose awards lookup is answered or refused.
\<close>

definition empty_world :: world where
  "empty_world = \<lparr>disk = \<lparr>content = Missing, writable = True\<rparr>, http_log = []\<rparr>"

definition both_keys :: tmdb_config where
  "both_keys = \<lparr>TMDB_API_KEY = Some ''tmdb-key'', OMDB_API_KEY = Some ''omdb-key''\<rparr>"

definition tmdb_only :: tmdb_config where
  "tmdb_only = \<lparr>TMDB_API_KEY = Some ''tmdb-key'', OMDB_API_KEY = None\<rparr>"

definition no_str :: "json \<Rightarrow> string" where
  "no_str v = []"

definition ok_json :: "json \<Rightarrow> outcome" where
  "ok_json j = Response \<lparr>status_code = 200, body_text = [], json_body = Some j\<rparr>"

definition raw_movie :: json where
  "raw_movie = JObj [(''media_type'', JStr ''movie''), (''id'', JInt 1), (''title'', JStr ''Dune'')]"

definition raw_person :: json where
  "raw_person = JObj [(''media_type'', JStr ''person''), (''id'', JInt 2), (''name'', JStr ''Frank Herbert'')]"

definition raw_tv :: json where
  "raw_tv = JObj [(''media_type'', JStr ''tv''), (''id'', JInt 3), (''name'', JStr ''Dune: Prophecy'')]"

definition search_answer :: "request \<Rightarrow> outcome" where
  "search_answer rq = ok_json (JObj [(''results'', JArr [raw_movie, raw_person, raw_tv])])"

definition no_results :: "request \<Rightarrow> outcome" where
  "no_results rq = ok_json (JObj [(''results'', JArr [])])"

definition raw_detail :: json where
  "raw_detail = JObj [(''id'', JInt 550), (''title'', JStr ''Fight Club''),
                      (''external_ids'', JObj [(''imdb_id'', JStr ''tt0137523'')])]"

definition awards_up :: "request \<Rightarrow> outcome" where
  "awards_up rq =
     (if url rq = ''http://www.omdbapi.com/''
      then ok_json (JObj [(''Awards'', JStr ''Nominated for 1 Oscar'')])
      else ok_json raw_detail)"

definition awards_down :: "request \<Rightarrow> outcome" where
  "awards_down rq =
     (if url rq = ''http://www.omdbapi.com/''
      then Response \<lparr>status_code = 500, body_text = ''Internal Server Error'', json_body = None\<rparr>
      else ok_json raw_detail)"

definition bad_gateway :: "request \<Rightarrow> outcome" where
  "bad_gateway rq = Response \<lparr>status_code = 502, body_text = ''Bad Gateway'', json_body = None\<rparr>"

definition signed_out :: client where
  "signed_out = \<lparr>api_key = Some ''fb-key'', db_url = ''https://db.example'', user = JNull\<rparr>"

definition env_without_tmdb :: environ where
  "env_without_tmdb name =
     (if name = ''OMDB_API_KEY'' then Some ''omdb-key''
      else if name = ''FIREBASE_API_KEY'' then Some ''fb-key''
      else if name = ''FIREBASE_DB_URL'' then Some ''https://db.example/''
      else None)"

definition env_without_firebase :: environ where
  "env_without_firebase name =
     (if name = ''OMDB_API_KEY'' then Some ''omdb-key''
      else if name = ''TMDB_API_KEY'' then Some ''tmdb-key''
      else None)"

section \<open>Properties of the float arithmetic\<close>

lemma rhe_of_int [simp]: "rhe (of_int n) = n"
  by (simp add: rhe_def)

lemma rhe_mono: "q \<le> q' \<Longrightarrow> rhe q \<le> rhe q'"
proof -
  assume le: "q \<le> q'"
  then have fl: "\<lfloor>q\<rfloor> \<le> \<lfloor>q'\<rfloor>" by (rule floor_mono)
  show ?thesis
  proof (cases "\<lfloor>q\<rfloor> = \<lfloor>q'\<rfloor>")
    case True
    with le show ?thesis by (auto simp: rhe_def Let_def)
  next
    case False
    with fl have "\<lfloor>q\<rfloor> + 1 \<le> \<lfloor>q'\<rfloor>" by simp
    moreover have "rhe q \<le> \<lfloor>q\<rfloor> + 1" by (auto simp: rhe_def Let_def)
    moreover have "\<lfloor>q'\<rfloor> \<le> rhe q'" by (auto simp: rhe_def Let_def)
    ultimately show ?thesis by linarith
  qed
qed

lemma expo_ge: "- 1074 \<le> expo x"
  by (simp add: expo_def)

lemma expo_upper: "\<bar>x\<bar> < 2 powi (expo x + 53)"
proof (cases "x = 0")
  case True
  then show ?thesis by simp
next
  case False
  then have pos: "0 < \<bar>x\<bar>" by simp
  have "log 2 \<bar>x\<bar> < of_int (\<lfloor>log 2 \<bar>x\<bar>\<rfloor> + 1)" by linarith
  moreover have "(log 2 \<bar>x\<bar> < y) = (\<bar>x\<bar> < 2 powr y)" for y
    using pos by (intro log_less_iff) auto
  ultimately have "\<bar>x\<bar> < 2 powr of_int (\<lfloor>log 2 \<bar>x\<bar>\<rfloor> + 1)"
    by blast
  also have "\<dots> = 2 powi (\<lfloor>log 2 \<bar>x\<bar>\<rfloor> + 1)"
    by (rule powr_real_of_int') simp_all
  also have "\<dots> \<le> 2 powi (expo x + 53)"
    using False by (intro power_int_increasing) (auto simp: expo_def)
  finally show ?thesis .
qed

lemma expo_lower: "- 1074 < expo x \<Longrightarrow> 2 powi (expo x + 52) \<le> \<bar>x\<bar>"
proof -
  assume a: "- 1074 < expo x"
  then have nz: "x \<noteq> 0" by (auto simp: expo_def)
  with a have e: "expo x = \<lfloor>log 2 \<bar>x\<bar>\<rfloor> - 52" by (auto simp: expo_def max_def split: if_splits)
  have "of_int \<lfloor>log 2 \<bar>x\<bar>\<rfloor> \<le> log 2 \<bar>x\<bar>" by simp
  moreover have "(y \<le> log 2 \<bar>x\<bar>) = (2 powr y \<le> \<bar>x\<bar>)" for y
    using nz by (intro le_log_iff) auto
  ultimately have "2 powr of_int \<lfloor>log 2 \<bar>x\<bar>\<rfloor> \<le> \<bar>x\<bar>"
    by blast
  moreover have "2 powr of_int \<lfloor>log 2 \<bar>x\<bar>\<rfloor> = (2::real) powi \<lfloor>log 2 \<bar>x\<bar>\<rfloor>"
    by (rule powr_real_of_int') simp_all
  ultimately show ?thesis using e by simp
qed

text \<open>The exponent is fixed by the binade the number lies in.\<close>

lemma expo_eqI:
  assumes lo: "2 powi (e + 52) \<le> \<bar>x\<bar>" and hi: "\<bar>x\<bar> < 2 powi (e + 53)" and e: "- 1074 \<le> e"
  shows "expo x = e"
proof (rule ccontr)
  assume ne: "expo x \<noteq> e"
  show False
  proof (cases "e < expo x")
    case True
    with e have "- 1074 < expo x" by simp
    from expo_lower[OF this] have "2 powi (expo x + 52) \<le> \<bar>x\<bar>" .
    moreover have "(2::real) powi (e + 53) \<le> 2 powi (expo x + 52)"
      using True by (intro power_int_increasing) simp_all
    ultimately show False using hi by linarith
  next
    case False
    with ne have lt: "expo x < e" by simp
    have "\<bar>x\<bar> < 2 powi (expo x + 53)" by (rule expo_upper)
    moreover have "(2::real) powi (expo x + 53) \<le> 2 powi (e + 52)"
      using lt by (intro power_int_increasing) simp_all
    ultimately show False using lo by linarith
  qed
qed

lemma div_mulD: "s \<noteq> 0 \<Longrightarrow> x / s = (m::real) \<Longrightarrow> x = m * s"
  by (auto simp: field_simps)

lemma mul_divD: "s \<noteq> 0 \<Longrightarrow> x = (m::real) * s \<Longrightarrow> x / s = m"
  by simp

lemma rnd_exact:
  assumes "x / 2 powi expo x = of_int m"
  shows "rnd x = x"
proof -
  have "(2::real) powi expo x \<noteq> 0" by simp
  then have "x = of_int m * 2 powi expo x" using assms by (rule div_mulD)
  then show ?thesis using assms by (simp add: rnd_def)
qed

lemma rnd_zero [simp]: "rnd 0 = 0"
  using rhe_of_int[of 0] by (simp add: rnd_def)

text \<open>
  Rounding never crosses a number that rounding leaves alone: from \<open>a \<le> x\<close> follows
  \<open>a \<le> rnd x\<close>.
\<close>

lemma rnd_ge:
  assumes a: "rnd a = a" and le: "a \<le> x"
  shows "a \<le> rnd x"
proof -
  let ?sx = "(2::real) powi expo x" and ?sa = "(2::real) powi expo a"
  have sx: "0 < ?sx" and sa: "0 < ?sa" by simp_all
  define m where "m = rhe (a / ?sa)"
  from a have am: "a = of_int m * ?sa" by (simp add: rnd_def m_def)
  show ?thesis
  proof (cases "expo x \<le> expo a")
    case True
    have "?sa = 2 powi (expo a - expo x) * ?sx"
      by (simp flip: power_int_add)
    also have "(2::real) powi (expo a - expo x) = of_int (2 ^ nat (expo a - expo x))"
      using True by (simp add: power_int_def)
    finally have "?sa = of_int (2 ^ nat (expo a - expo x)) * ?sx" .
    with am have A: "a = of_int (m * 2 ^ nat (expo a - expo x)) * ?sx"
      by (simp add: mult.assoc)
    moreover have "?sx \<noteq> 0" by simp
    ultimately have "a / ?sx = of_int (m * 2 ^ nat (expo a - expo x))"
      by (intro mul_divD)
    then have "rhe (a / ?sx) = m * 2 ^ nat (expo a - expo x)"
      by (simp only: rhe_of_int)
    moreover have "rhe (a / ?sx) \<le> rhe (x / ?sx)"
      using le sx by (intro rhe_mono divide_right_mono) simp_all
    ultimately have "m * 2 ^ nat (expo a - expo x) \<le> rhe (x / ?sx)" by simp
    then have "(of_int (m * 2 ^ nat (expo a - expo x)) :: real) \<le> of_int (rhe (x / ?sx))"
      by (simp only: of_int_le_iff)
    then have "of_int (m * 2 ^ nat (expo a - expo x)) * ?sx \<le> of_int (rhe (x / ?sx)) * ?sx"
      using sx by (intro mult_right_mono) simp_all
    with A have "a \<le> of_int (rhe (x / ?sx)) * ?sx" by (rule ord_eq_le_trans)
    then show ?thesis by (simp only: rnd_def)
  next
    case False
    then have lt: "expo a < expo x" by simp
    with expo_ge[of a] have big: "- 1074 < expo x" by linarith
    let ?B = "(2::real) powi (expo x + 52)"
    have "\<bar>a\<bar> < 2 powi (expo a + 53)" by (rule expo_upper)
    also have "\<dots> \<le> ?B" using lt by (intro power_int_increasing) simp_all
    finally have aB: "\<bar>a\<bar> < ?B" .
    from expo_lower[OF big] have Bx: "?B \<le> \<bar>x\<bar>" .
    with aB le have xB: "?B \<le> x" by linarith
    have "?B = 2 powi 52 * ?sx" by (simp add: power_int_add add.commute)
    then have Bq: "?B / ?sx = of_int (2 ^ 52)" using sx by simp
    have "rhe (?B / ?sx) \<le> rhe (x / ?sx)"
      using xB sx by (intro rhe_mono divide_right_mono) simp_all
    then have "(2 ^ 52 :: int) \<le> rhe (x / ?sx)" by (simp only: Bq rhe_of_int)
    then have "(of_int (2 ^ 52) :: real) \<le> of_int (rhe (x / ?sx))"
      by (simp only: of_int_le_iff)
    then have "of_int (2 ^ 52) * ?sx \<le> of_int (rhe (x / ?sx)) * ?sx"
      using sx by (intro mult_right_mono) simp_all
    moreover have "?sx \<noteq> 0" by simp
    then have "?B = of_int (2 ^ 52) * ?sx" using Bq by (rule div_mulD)
    ultimately have "?B \<le> of_int (rhe (x / ?sx)) * ?sx" by (rule ord_eq_le_trans[rotated])
    then have "?B \<le> rnd x" by (simp only: rnd_def)
    with aB show ?thesis by linarith
  qed
qed

lemma rnd_nonneg: "0 \<le> x \<Longrightarrow> 0 \<le> rnd x"
  using rnd_ge[of 0 x] by simp

text \<open>An integer below \<open>2 ^ 53\<close> in size is a double.\<close>

lemma rnd_small_int:
  assumes "x \<in> \<int>" and "\<bar>x\<bar> < 2 ^ 53"
  shows "rnd x = x"
proof -
  from assms(1) obtain z :: int where x: "x = of_int z" by (auto elim: Ints_cases)
  have e: "expo x \<le> 0"
  proof (rule ccontr)
    assume "\<not> expo x \<le> 0"
    then have p: "0 < expo x" by simp
    then have "- 1074 < expo x" by simp
    from expo_lower[OF this] have "2 powi (expo x + 52) \<le> \<bar>x\<bar>" .
    moreover have "(2::real) powi 53 \<le> 2 powi (expo x + 52)"
      using p by (intro power_int_increasing) simp_all
    ultimately show False using assms(2) by simp
  qed
  have "(2::real) powi expo x = inverse (2 powi (- expo x))"
    using power_int_minus[of "2::real" "- expo x"] by simp
  also have "(2::real) powi (- expo x) = 2 ^ nat (- expo x)"
    using e by (simp add: power_int_nonneg_exp)
  finally have "x / 2 powi expo x = of_int (z * 2 ^ nat (- expo x))"
    using x by (simp add: field_simps)
  then show ?thesis by (rule rnd_exact)
qed

lemma is_double_small_int: "x \<in> \<int> \<Longrightarrow> \<bar>x\<bar> < 2 ^ 53 \<Longrightarrow> is_double x"
proof -
  assume a: "x \<in> \<int>" "\<bar>x\<bar> < 2 ^ 53"
  have "(2::real) ^ 53 < 2 ^ 1024" by (intro power_strict_increasing) simp_all
  with a show ?thesis by (simp add: is_double_def rnd_small_int)
qed

lemma to_float_small_int: "\<bar>n\<bar> < 2 ^ 53 \<Longrightarrow> to_float n = Inr (Fin (of_int n))"
proof -
  assume a: "\<bar>n\<bar> < 2 ^ 53"
  then have b: "\<bar>real_of_int n\<bar> < 2 ^ 53"
    by (metis of_int_abs of_int_less_iff of_int_numeral of_int_power)
  then have r: "rnd (of_int n) = of_int n" by (intro rnd_small_int) simp_all
  have "(2::real) ^ 53 < 2 ^ 1024" by (intro power_strict_increasing) simp_all
  with b have "\<not> 2 ^ 1024 \<le> \<bar>real_of_int n\<bar>" by linarith
  with r show ?thesis by (simp add: to_float_def)
qed

text \<open>
  Two places where the arithmetic of doubles shows: the sum \<open>2 ^ 53 + 2 + 1\<close> is a tie
  and goes up to \<open>2 ^ 53 + 4\<close>, and the int \<open>10 ^ 309\<close> has no double.
\<close>

lemma rnd_tie_to_even: "rnd 9007199254740995 = 9007199254740996"
proof -
  have "expo 9007199254740995 = 1" by (rule expo_eqI) simp_all
  then show ?thesis by (simp add: rnd_def rhe_def)
qed

lemma rnd_power_of_two: "rnd (2 ^ n) = 2 ^ n"
proof -
  let ?x = "(2::real) ^ n"
  have e: "expo ?x \<le> int n"
  proof (rule ccontr)
    assume "\<not> expo ?x \<le> int n"
    then have p: "int n < expo ?x" by simp
    then have "- 1074 < expo ?x" by linarith
    from expo_lower[OF this] have "2 powi (expo ?x + 52) \<le> ?x" by simp
    moreover have "(2::real) powi (int n) < 2 powi (expo ?x + 52)"
      using p by (intro power_int_strict_increasing) simp_all
    ultimately show False by simp
  qed
  have "?x = 2 powi (int n - expo ?x) * 2 powi expo ?x"
    by (simp flip: power_int_add)
  also have "(2::real) powi (int n - expo ?x) = of_int (2 ^ nat (int n - expo ?x))"
    using e by (simp add: power_int_def)
  finally have "?x = of_int (2 ^ nat (int n - expo ?x)) * 2 powi expo ?x" .
  moreover have "(2::real) powi expo ?x \<noteq> 0" by simp
  ultimately have "?x / 2 powi expo ?x = of_int (2 ^ nat (int n - expo ?x))"
    by (intro mul_divD)
  then show ?thesis by (rule rnd_exact)
qed

lemma to_float_overflow: "2 ^ 1024 \<le> n \<Longrightarrow> to_float n = Inl OverflowError"
proof -
  assume "2 ^ 1024 \<le> n"
  then have "(2::real) ^ 1024 \<le> of_int n"
    by (metis of_int_le_iff of_int_numeral of_int_power)
  with rnd_ge[OF rnd_power_of_two, of 1024 "of_int n"]
  have "(2::real) ^ 1024 \<le> rnd (of_int n)" by blast
  then show ?thesis by (simp add: to_float_def Let_def)
qed

section \<open>Properties of the cache\<close>

lemma dict_get_delete: "dict_get (AList.delete k d) k' = (if k' = k then JNull else dict_get d k')"
  by (simp add: dict_get_def dict_get_default_def delete_conv')

lemma dict_get_update: "dict_get (AList.update k v d) k' = (if k' = k then v else dict_get d k')"
  by (simp add: dict_get_def dict_get_default_def update_conv')

lemma doomed_delete: "doomed now (AList.delete k d) k' = (k' \<noteq> k \<and> doomed now d k')"
  by (simp add: doomed_def dict_get_delete)

lemma purge_map_of:
  "purge now ks d ch = Inr (d', ch') \<Longrightarrow>
     map_of d' = (\<lambda>k. if k \<in> set ks \<and> doomed now d k then None else map_of d k) \<and>
     ch' = (ch \<or> (\<exists>k\<in>set ks. doomed now d k))"
proof (induction ks arbitrary: d ch)
  case Nil
  then show ?case by simp
next
  case (Cons k ks)
  show ?case
  proof (cases "doomed now d k")
    case True
    then have "purge now ks (AList.delete k d) True = Inr (d', ch')"
      using Cons.prems by (auto simp: doomed_def Let_def split: json.splits sum.splits if_splits)
    from Cons.IH[OF this] True show ?thesis
      by (auto simp: doomed_delete delete_conv' fun_eq_iff)
  next
    case False
    then have "purge now ks d ch = Inr (d', ch')"
      using Cons.prems by (auto simp: doomed_def Let_def split: json.splits sum.splits if_splits)
    from Cons.IH[OF this] False show ?thesis
      by (auto simp: fun_eq_iff)
  qed
qed

lemma purge_fixed:
  "\<forall>k\<in>set ks. \<not> doomed now d k \<Longrightarrow> purge now ks d ch = Inr r \<Longrightarrow> r = (d, ch)"
  by (induction ks arbitrary: d ch)
     (auto simp: doomed_def Let_def split: json.splits sum.splits if_splits)

lemma purge_settled:
  "\<forall>k\<in>set ks. settled now d k \<Longrightarrow> purge now ks d ch = Inr (d, ch)"
proof (induction ks arbitrary: ch)
  case Nil
  show ?case by simp
next
  case (Cons k ks)
  then have IH: "purge now ks d ch = Inr (d, ch)" for ch by simp
  from Cons.prems have "settled now d k" by simp
  then show ?case
    by (cases "dict_get d k") (auto simp: settled_def IH)
qed

lemma purge_ok:
  "purge now ks d ch = Inr r \<Longrightarrow> k \<in> set ks \<Longrightarrow> settled now d k \<or> doomed now d k"
proof (induction ks arbitrary: d ch)
  case Nil
  then show ?case by simp
next
  case (Cons k0 ks)
  have head: "settled now d k0 \<or> doomed now d k0"
    using Cons.prems(1)
    by (auto simp: settled_def doomed_def Let_def split: json.splits sum.splits if_splits)
  show ?case
  proof (cases "k = k0")
    case True
    with head show ?thesis by simp
  next
    case False
    then have mem: "k \<in> set ks" using Cons.prems(2) by simp
    from Cons.prems(1) consider
        "purge now ks d ch = Inr r" | "purge now ks (AList.delete k0 d) True = Inr r"
      by (auto simp: Let_def split: json.splits sum.splits if_splits)
    then show ?thesis
    proof cases
      case 1
      from Cons.IH[OF this mem] show ?thesis .
    next
      case 2
      from Cons.IH[OF this mem] False show ?thesis
        by (simp add: settled_def doomed_def dict_get_delete)
    qed
  qed
qed

lemma dict_get_map_of: "map_of d' k = map_of d k \<Longrightarrow> dict_get d' k = dict_get d k"
  by (simp add: dict_get_def dict_get_default_def)

lemma dict_get_None: "map_of d k = None \<Longrightarrow> dict_get d k = JNull"
  by (simp add: dict_get_def dict_get_default_def)

lemma purge_dict_get:
  assumes "purge now ks d ch = Inr (d', ch')"
  shows "dict_get d' k = (if k \<in> set ks \<and> doomed now d k then JNull else dict_get d k)"
  using purge_map_of[OF assms] by (simp add: dict_get_def dict_get_default_def)

lemma purge_result_settled:
  assumes "purge now ks d ch = Inr (d', ch')" and "k \<in> set ks"
  shows "settled now d' k"
proof (cases "doomed now d k")
  case True
  then show ?thesis using purge_dict_get[OF assms(1), of k] assms(2) by (simp add: settled_def)
next
  case False
  with purge_ok[OF assms] have "settled now d k" by simp
  then show ?thesis using purge_dict_get[OF assms(1), of k] False by (simp add: settled_def)
qed

lemma purge_keys:
  assumes "purge now ks d ch = Inr (d', ch')"
  shows "fst ` set d' \<subseteq> fst ` set d"
proof
  fix k assume "k \<in> fst ` set d'"
  then have "map_of d' k \<noteq> None" by (simp add: map_of_eq_None_iff)
  then have "map_of d k \<noteq> None" using purge_map_of[OF assms] by (auto split: if_splits)
  then show "k \<in> fst ` set d" by (simp add: map_of_eq_None_iff)
qed

lemma settled_absent: "map_of d k = None \<Longrightarrow> settled now d k"
  by (simp add: settled_def dict_get_None)

text \<open>Whatever the file holds, every key of the loaded dict passes the test of the loop.\<close>

lemma load_cache_settled:
  assumes "load_cache f now = (c, f')"
  shows "settled now c k"
proof (cases "k \<in> fst ` set c")
  case False
  then show ?thesis by (simp add: settled_absent map_of_eq_None_iff)
next
  case True
  then have ne: "c \<noteq> []" by auto
  from assms ne obtain d ch where d: "content f = Parsed (JObj d)"
      and p: "purge now (map fst d) d False = Inr (c, ch)"
    by (auto simp: load_cache_def split: file_state.splits json.splits sum.splits if_splits)
  from purge_keys[OF p] True have "k \<in> set (map fst d)" by auto
  from purge_result_settled[OF p this] show ?thesis .
qed

lemma load_cache_writable: "writable (snd (load_cache f now)) = writable f"
  by (auto simp: load_cache_def split: file_state.splits json.splits sum.splits if_splits)

lemma entry_deadline_fresh:
  "entry_deadline [(''ts'', JFloat (Fin ts)), (''ttl'', JInt ttl), (''value'', v)] =
     (case to_float ttl of Inl e \<Rightarrow> Inl e | Inr t \<Rightarrow> Inr (JFloat (fadd (Fin ts) t)))"
  by (simp add: entry_deadline_def dict_get_default_def py_add_def)

text \<open>
  An entry stamped \<open>now\<close> with a ttl that is not negative and has a double is not
  expired at \<open>now\<close>: the rounded sum is not below \<open>now\<close>.
\<close>

lemma expired_fresh_entry:
  assumes ttl: "0 \<le> ttl" and fl: "to_float ttl \<noteq> Inl OverflowError" and now: "is_double now"
  shows "expired now [(''ts'', JFloat (Fin now)), (''ttl'', JInt ttl), (''value'', v)] = Inr False"
proof -
  let ?t = "rnd (of_int ttl)"
  from fl have tf: "to_float ttl = Inr (Fin ?t)"
    by (simp add: to_float_def Let_def split: if_splits)
  have t0: "0 \<le> ?t" using ttl by (intro rnd_nonneg) simp
  from now have fx: "rnd now = now" and bound: "\<bar>now\<bar> < 2 ^ 1024"
    by (simp_all add: is_double_def)
  have ge: "now \<le> rnd (now + ?t)" using t0 by (intro rnd_ge fx) simp
  then have "\<not> rnd (now + ?t) \<le> - (2 ^ 1024)" using bound by linarith
  with ge have "\<not> fless (fadd (Fin now) (Fin ?t)) (Fin now)"
    by (simp add: Let_def)
  then show ?thesis
    by (simp add: expired_def entry_deadline_fresh tf py_less_float_def)
qed

text \<open>
  Rounding shows in the test: an entry stamped \<open>2 ^ 53 + 2\<close> with ttl 1 is not expired
  at \<open>2 ^ 53 + 4\<close>, since the sum rounds up to \<open>2 ^ 53 + 4\<close>.
\<close>

lemma expired_rounded_sum:
  "expired 9007199254740996
     [(''ts'', JFloat (Fin 9007199254740994)), (''ttl'', JInt 1), (''value'', v)] = Inr False"
  by (simp add: expired_def entry_deadline_fresh to_float_small_int rnd_tie_to_even
      py_less_float_def Let_def)

lemma dict_get_value: "dict_get [(''ts'', a), (''ttl'', b), (''value'', v)] ''value'' = v"
  by (simp add: dict_get_def dict_get_default_def)

lemma load_cache_fixed:
  assumes "content f = Parsed (JObj d)" and "\<forall>k\<in>fst ` set d. settled now d k"
  shows "load_cache f now = (d, f)"
  using assms purge_settled[of "map fst d" now d False] by (simp add: load_cache_def)

lemma settled_delete: "settled now (AList.delete k d) k' = (k' = k \<or> settled now d k')"
  by (simp add: settled_def dict_get_delete)

lemma purge_total:
  "\<forall>k\<in>set ks. settled now d k \<or> doomed now d k \<Longrightarrow> \<exists>r. purge now ks d ch = Inr r"
proof (induction ks arbitrary: d ch)
  case Nil
  show ?case by simp
next
  case (Cons k ks)
  from Cons.prems have rest: "\<forall>k'\<in>set ks. settled now d k' \<or> doomed now d k'" by simp
  show ?case
  proof (cases "doomed now d k")
    case True
    have "\<forall>k'\<in>set ks. settled now (AList.delete k d) k' \<or> doomed now (AList.delete k d) k'"
      using rest by (auto simp: settled_delete doomed_delete)
    from Cons.IH[OF this, of True] True show ?thesis
      by (cases "dict_get d k") (auto simp: doomed_def)
  next
    case False
    with Cons.prems have "settled now d k" by simp
    with Cons.IH[OF rest, of ch] show ?thesis
      by (cases "dict_get d k") (auto simp: settled_def)
  qed
qed

lemma expired_total:
  assumes "entry_deadline ed = Inr s" and "num_of s \<noteq> None"
  shows "\<exists>b. expired now ed = Inr b"
  using assms by (auto simp: expired_def py_less_float_def split: option.splits pynum.splits)

lemma well_formed_entry_cases:
  assumes "well_formed_entry (dict_get d k)"
  shows "settled now d k \<or> doomed now d k"
proof (cases "dict_get d k")
  case (JObj ed)
  show ?thesis
  proof (cases "ed = []")
    case True
    with JObj show ?thesis by (simp add: settled_def)
  next
    case False
    with assms JObj obtain s where "entry_deadline ed = Inr s" "num_of s \<noteq> None"
      by (auto simp: well_formed_entry_def split: sum.splits)
    from expired_total[OF this, of now] obtain b where "expired now ed = Inr b" by blast
    with JObj False show ?thesis by (cases b) (simp_all add: settled_def doomed_def)
  qed
qed (use assms in \<open>auto simp: well_formed_entry_def settled_def\<close>)

lemma well_formed_dict_get:
  assumes "list_all well_formed_entry (map snd d)"
  shows "well_formed_entry (dict_get d k)"
proof (cases "map_of d k")
  case None
  then show ?thesis by (simp add: dict_get_None well_formed_entry_def)
next
  case (Some v)
  then have "(k, v) \<in> set d" by (rule map_of_SomeD)
  then have "well_formed_entry v" using assms by (auto simp: list_all_iff)
  then show ?thesis using Some by (simp add: dict_get_def dict_get_default_def)
qed

lemma load_cache_well_formed:
  assumes c: "content f = Parsed (JObj d)"
    and wf: "list_all well_formed_entry (map snd d)"
    and w: "writable f"
  obtains d' where "load_cache f now = (d', f\<lparr>content := Parsed (JObj d')\<rparr>)"
    and "\<And>k. map_of d' k = (if doomed now d k then None else map_of d k)"
    and "\<And>k. settled now d' k"
proof -
  have "\<forall>k\<in>set (map fst d). settled now d k \<or> doomed now d k"
    using well_formed_entry_cases[OF well_formed_dict_get[OF wf]] by blast
  from purge_total[OF this] obtain d' ch where p: "purge now (map fst d) d False = Inr (d', ch)"
    by fastforce
  have same: "d' = d" if "\<not> ch"
  proof -
    from purge_map_of[OF p] that have "\<forall>k\<in>set (map fst d). \<not> doomed now d k" by blast
    from purge_fixed[OF this p] show ?thesis by simp
  qed
  have f_same: "f\<lparr>content := Parsed (JObj d)\<rparr> = f" using c by simp
  have l: "load_cache f now = (d', f\<lparr>content := Parsed (JObj d')\<rparr>)"
    using c w p same f_same by (cases ch) (simp_all add: load_cache_def)
  have g: "map_of d' k = (if doomed now d k then None else map_of d k)" for k
  proof (cases "k \<in> set (map fst d)")
    case True
    then show ?thesis using purge_map_of[OF p] by simp
  next
    case False
    then have "map_of d k = None" by (simp add: map_of_eq_None_iff)
    then show ?thesis using purge_map_of[OF p] by simp
  qed
  have "settled now d' k" for k using load_cache_settled[OF l] .
  with l g show ?thesis using that by blast
qed

lemma load_cache_sub:
  assumes "content f = Parsed (JObj d)"
  shows "map_of (fst (load_cache f now)) k = None \<or>
         map_of (fst (load_cache f now)) k = map_of d k"
proof (cases "purge now (map fst d) d False")
  case (Inl e)
  then show ?thesis using assms by (simp add: load_cache_def)
next
  case (Inr r)
  obtain d' ch where r: "r = (d', ch)" by (cases r)
  from Inr r have p: "purge now (map fst d) d False = Inr (d', ch)" by simp
  have "fst (load_cache f now) = d' \<or> fst (load_cache f now) = []"
    using assms p by (simp add: load_cache_def)
  then show ?thesis using purge_map_of[OF p] by auto
qed

text \<open>When the loop deletes the entry of a key, no load returns it, whatever else the file holds.\<close>

lemma load_cache_doomed:
  assumes c: "content f = Parsed (JObj d)" and k: "map_of d k \<noteq> None" and dm: "doomed now d k"
  shows "map_of (fst (load_cache f now)) k = None"
proof (cases "purge now (map fst d) d False")
  case (Inl e)
  then show ?thesis using c by (simp add: load_cache_def)
next
  case (Inr r)
  obtain d' ch where r: "r = (d', ch)" by (cases r)
  from Inr r have p: "purge now (map fst d) d False = Inr (d', ch)" by simp
  from k have "k \<in> set (map fst d)" by (simp add: map_of_eq_None_iff)
  with purge_map_of[OF p] dm have "map_of d' k = None" by simp
  moreover have "fst (load_cache f now) = d' \<or> fst (load_cache f now) = []"
    using c p by (simp add: load_cache_def)
  ultimately show ?thesis by auto
qed

section \<open>Claims about the cache\<close>

text \<open>
  C1 (the claim as stated fails): the round trip is claimed for every ttl. An entry
  written with a negative ttl is already past its deadline at the instant it is written:
  \<^verbatim>\<open>_cache_set("k", "v", -1)\<close> followed at once by \<^verbatim>\<open>_cache_get("k")\<close> gives
  \<^verbatim>\<open>None\<close>, not \<^verbatim>\<open>"v"\<close>.
\<close>

theorem cache_roundtrip_counterexample:
  "fst (cache_get (cache_set \<lparr>content = Missing, writable = True\<rparr> 100 ''k'' (JStr ''v'') (- 1)) 100 ''k'')
     = Inr JNull"
  by (simp add: cache_get_def cache_set_def load_cache_def save_cache_def cache_entry_def
      dict_get_def dict_get_default_def expired_def entry_deadline_def py_add_def
      py_less_float_def to_float_small_int rnd_small_int Let_def)

text \<open>
  C1 (amended): for every key, every JSON value (the values that \<^verbatim>\<open>json.dump\<close> and
  \<^verbatim>\<open>json.load\<close> carry unchanged) and every ttl that is not negative and not too large
  for a float (\<^verbatim>\<open>float(ttl)\<close> does not raise \<^verbatim>\<open>OverflowError\<close>), when the write of the
  cache file succeeds and no time passes (the clock reads the same double \<open>now\<close>),
  \<^verbatim>\<open>_cache_get\<close> right after \<^verbatim>\<open>_cache_set\<close> returns the stored value unchanged, whatever
  the cache file held before (missing, unreadable, or any JSON document).
\<close>

theorem cache_roundtrip:
  assumes w: "writable f" and ttl: "0 \<le> ttl" and fl: "to_float ttl \<noteq> Inl OverflowError"
    and now: "is_double now"
  shows "fst (cache_get (cache_set f now key v ttl) now key) = Inr v"
proof -
  obtain c f' where l: "load_cache f now = (c, f')" by (cases "load_cache f now")
  let ?U = "AList.update key (cache_entry now ttl v) c"
  have w': "writable f'" using load_cache_writable[of f now] l w by simp
  have set: "cache_set f now key v ttl = f'\<lparr>content := Parsed (JObj ?U)\<rparr>"
    using l w' by (simp add: cache_set_def save_cache_def)
  have "settled now ?U k" for k
  proof (cases "k = key")
    case True
    then show ?thesis using expired_fresh_entry[OF ttl fl now, of v]
      by (simp add: settled_def dict_get_update cache_entry_def)
  next
    case False
    then show ?thesis using load_cache_settled[OF l, of k]
      by (simp add: settled_def dict_get_update)
  qed
  then have "load_cache (f'\<lparr>content := Parsed (JObj ?U)\<rparr>) now = (?U, f'\<lparr>content := Parsed (JObj ?U)\<rparr>)"
    by (intro load_cache_fixed) auto
  then show ?thesis
    unfolding set by (simp add: cache_get_def dict_get_update cache_entry_def dict_get_value)
qed

theorem cache_roundtrip_witness:
  "writable \<lparr>content = Missing, writable = True\<rparr> \<and> (0::int) \<le> 3600 \<and>
   to_float 3600 \<noteq> Inl OverflowError \<and> is_double 100 \<and>
   fst (cache_get (cache_set \<lparr>content = Missing, writable = True\<rparr> 100 ''k'' (JStr ''v'') 3600) 100 ''k'')
     = Inr (JStr ''v'')"
  using cache_roundtrip [of "\<lparr>content = Missing, writable = True\<rparr>" 3600 100 "''k''" "JStr ''v''"]
  by (simp add: to_float_small_int is_double_small_int)

text \<open>
  The bound on the ttl is needed: with \<open>ttl = 10 ^ 309\<close> the test of the loop raises
  \<^verbatim>\<open>OverflowError\<close>, the load gives the empty dict, and the get after the set returns
  \<^verbatim>\<open>None\<close>.
\<close>

lemma huge_ttl_not_cached:
  "fst (cache_get (cache_set \<lparr>content = Missing, writable = True\<rparr> 100 ''k'' (JStr ''v'') (10 ^ 309)) 100 ''k'')
     = Inr JNull"
  by (simp add: cache_get_def cache_set_def load_cache_def save_cache_def cache_entry_def
      dict_get_def dict_get_default_def expired_def entry_deadline_def py_add_def
      to_float_overflow Let_def)

text \<open>
  C2 (the claim as stated fails): validity is claimed to be \<open>now < timestamp + ttl\<close>. At
  the instant \<open>now = timestamp + ttl\<close> the entry is still served: the loop drops an entry
  only when \<open>timestamp + ttl < now\<close>.
\<close>

theorem validity_boundary_counterexample:
  "\<not> ((10::real) < 0 + 10) \<and>
   fst (cache_get \<lparr>content = Parsed (JObj [(''k'', cache_entry 0 10 (JStr ''v''))]), writable = True\<rparr> 10 ''k'')
     = Inr (JStr ''v'')"
  by (simp add: cache_get_def load_cache_def cache_entry_def dict_get_def dict_get_default_def
      expired_def entry_deadline_def py_add_def py_less_float_def to_float_small_int
      rnd_small_int Let_def)

text \<open>
  C2 (amended): an entry is valid iff the test \<^verbatim>\<open>ts + ttl < now\<close> of the loop, as Python
  computes it (an exact sum of ints, a rounded sum of floats), is false; at
  \<open>now = timestamp + ttl\<close> it is still valid. In the theorem \<open>x\<close> is the value of that
  test for the entry stored under \<open>k\<close>. When the test is true, \<^verbatim>\<open>_cache_get\<close> reports
  absent, whatever else the file holds and whether or not it can be rewritten. When
  moreover every entry of the file is well formed and the rewrite succeeds,
  \<^verbatim>\<open>_cache_get\<close> returns the entry's value when the test is false; \<^verbatim>\<open>_load_cache\<close> leaves
  in the file exactly the dict it returns, without the expired entry, so that no later
  load (at any time \<open>now'\<close>) contains it; and a second load at the same instant returns
  the same dict and the same file.
\<close>

theorem expired_entries_pruned:
  assumes c: "content f = Parsed (JObj d)"
    and e: "map_of d k = Some (JObj e)" and ne: "e \<noteq> []"
    and x: "expired now e = Inr x"
  shows "(x \<longrightarrow> fst (cache_get f now k) = Inr JNull) \<and>
         (list_all well_formed_entry (map snd d) \<and> writable f \<longrightarrow>
            fst (cache_get f now k) = Inr (if x then JNull else dict_get e ''value'') \<and>
            (x \<longrightarrow>
               content (snd (load_cache f now)) = Parsed (JObj (fst (load_cache f now))) \<and>
               map_of (fst (load_cache f now)) k = None \<and>
               map_of (fst (load_cache (snd (load_cache f now)) now')) k = None) \<and>
            load_cache (snd (load_cache f now)) now = load_cache f now)"
proof (intro conjI impI)
  have dg: "dict_get d k = JObj e" using e by (simp add: dict_get_def dict_get_default_def)
  have dm: "doomed now d k = x" using dg ne x by (simp add: doomed_def)
  {
    assume x
    with dm have "doomed now d k" by simp
    from load_cache_doomed[OF c _ this] e
    have "dict_get (fst (load_cache f now)) k = JNull" by (simp add: dict_get_None)
    then show "fst (cache_get f now k) = Inr JNull"
      by (cases "load_cache f now") (simp add: cache_get_def)
  }
  assume a: "list_all well_formed_entry (map snd d) \<and> writable f"
  then have wf: "list_all well_formed_entry (map snd d)" and w: "writable f" by simp_all
  from load_cache_well_formed[OF c wf w, of now] obtain d'
    where l: "load_cache f now = (d', f\<lparr>content := Parsed (JObj d')\<rparr>)"
      and g: "\<And>k. map_of d' k = (if doomed now d k then None else map_of d k)"
      and s: "\<And>k. settled now d' k"
    by blast
  let ?f' = "f\<lparr>content := Parsed (JObj d')\<rparr>"
  have dg': "dict_get d' k = (if x then JNull else JObj e)"
    using g[of k] dm e by (simp add: dict_get_def dict_get_default_def)
  show "fst (cache_get f now k) = Inr (if x then JNull else dict_get e ''value'')"
    using l dg' ne by (simp add: cache_get_def)
  have c': "content ?f' = Parsed (JObj d')" by simp
  show "load_cache (snd (load_cache f now)) now = load_cache f now"
    using load_cache_fixed[OF c', of now] s l by simp
  assume x
  with g[of k] dm have none: "map_of d' k = None" by simp
  show "content (snd (load_cache f now)) = Parsed (JObj (fst (load_cache f now)))"
    using l by simp
  show "map_of (fst (load_cache f now)) k = None" using l none by simp
  show "map_of (fst (load_cache (snd (load_cache f now)) now')) k = None"
    using load_cache_sub[OF c', of now' k] none l by auto
qed

theorem expired_entries_pruned_witness:
  "expired 11 [(''ts'', JFloat (Fin 0)), (''ttl'', JInt 10), (''value'', JStr ''v'')] = Inr True \<and>
   list_all well_formed_entry (map snd [(''k'', cache_entry 0 10 (JStr ''v''))]) \<and>
   fst (cache_get \<lparr>content = Parsed (JObj [(''k'', cache_entry 0 10 (JStr ''v''))]), writable = True\<rparr> 11 ''k'')
     = Inr JNull \<and>
   load_cache \<lparr>content = Parsed (JObj [(''k'', cache_entry 0 10 (JStr ''v''))]), writable = True\<rparr> 11
     = ([], \<lparr>content = Parsed (JObj []), writable = True\<rparr>) \<and>
   load_cache \<lparr>content = Parsed (JObj []), writable = True\<rparr> 11
     = ([], \<lparr>content = Parsed (JObj []), writable = True\<rparr>)"
proof -
  let ?e = "[(''ts'', JFloat (Fin 0)), (''ttl'', JInt 10), (''value'', JStr ''v'')]"
  let ?d = "[(''k'', cache_entry 0 10 (JStr ''v''))]"
  let ?f = "\<lparr>content = Parsed (JObj ?d), writable = True\<rparr>"
  have x: "expired 11 ?e = Inr True"
    by (simp add: expired_def entry_deadline_def dict_get_default_def py_add_def
        py_less_float_def to_float_small_int rnd_small_int)
  have wf: "list_all well_formed_entry (map snd ?d)"
    by (simp add: well_formed_entry_def cache_entry_def entry_deadline_def dict_get_default_def
        py_add_def to_float_small_int)
  have l: "load_cache ?f 11 = ([], \<lparr>content = Parsed (JObj []), writable = True\<rparr>)"
    using x by (simp add: load_cache_def cache_entry_def dict_get_def dict_get_default_def)
  from expired_entries_pruned [of ?f ?d "''k''" ?e 11 True 12] x wf l
  have "fst (cache_get ?f 11 ''k'') = Inr JNull \<and>
        load_cache \<lparr>content = Parsed (JObj []), writable = True\<rparr> 11
          = ([], \<lparr>content = Parsed (JObj []), writable = True\<rparr>)"
    by (simp add: cache_entry_def)
  with x wf l show ?thesis by simp
qed

text \<open>
  C10: after \<^verbatim>\<open>_cache_set(key, None)\<close> (the write succeeding), \<^verbatim>\<open>_cache_get(key)\<close>
  returns \<^verbatim>\<open>None\<close>, which is also what it returns when the cache file does not exist:
  a cached null and a miss are the same answer.
\<close>

theorem cached_none_is_absent:
  assumes "writable f" and "content g = Missing"
  shows "fst (cache_get (cache_set f now key JNull ttl) now key) = Inr JNull \<and>
         fst (cache_get g now key) = Inr JNull"
proof -
  obtain c f' where l: "load_cache f now = (c, f')" by (cases "load_cache f now")
  let ?U = "AList.update key (cache_entry now ttl JNull) c"
  let ?f = "f'\<lparr>content := Parsed (JObj ?U)\<rparr>"
  have w': "writable f'" using load_cache_writable[of f now] l assms(1) by simp
  have set: "cache_set f now key JNull ttl = ?f"
    using l w' by (simp add: cache_set_def save_cache_def)
  have c: "content ?f = Parsed (JObj ?U)" by simp
  have "map_of (fst (load_cache ?f now)) key = None \<or>
        map_of (fst (load_cache ?f now)) key = Some (cache_entry now ttl JNull)"
    using load_cache_sub[OF c, of now key] by (simp add: update_conv')
  then have "fst (cache_get ?f now key) = Inr JNull"
    by (auto simp: cache_get_def dict_get_def dict_get_default_def cache_entry_def
        split: prod.splits)
  moreover have "fst (cache_get g now key) = Inr JNull"
    using assms(2) by (simp add: cache_get_def load_cache_def dict_get_def dict_get_default_def)
  ultimately show ?thesis using set by simp
qed

theorem cached_none_is_absent_witness:
  "fst (cache_get (cache_set \<lparr>content = Missing, writable = True\<rparr> 100 ''k'' JNull 3600) 100 ''k'')
     = Inr JNull \<and>
   fst (cache_get \<lparr>content = Missing, writable = True\<rparr> 100 ''k'') = Inr JNull"
  using cached_none_is_absent [of "\<lparr>content = Missing, writable = True\<rparr>"
      "\<lparr>content = Missing, writable = True\<rparr>" 100 "''k''" 3600]
  by simp

section \<open>Claims about get_trending\<close>

lemma trending_item_ok:
  assumes "trending_ok r"
  obtains item where "trending_item mt r = Inr item" and "obj_get item ''raw'' = r"
    and "poster_derived r item"
proof -
  from assms obtain d where r: "r = JObj d" by (cases r) (auto simp: trending_ok_def)
  show ?thesis
  proof (cases "dict_get d ''poster_path''")
    case (JStr s)
    then show ?thesis using r that
      by (cases "s = []")
         (auto simp: trending_item_def poster_derived_def obj_get_def dict_get_def
            dict_get_default_def Let_def)
  qed (use assms r that in \<open>auto simp: trending_ok_def trending_item_def poster_derived_def obj_get_def
            dict_get_def dict_get_default_def Let_def\<close>)
qed

lemma trending_loop_ok:
  "list_all trending_ok rs \<Longrightarrow>
   \<exists>items. trending_loop mt rs acc = Inr (acc @ items) \<and>
           map (\<lambda>i. obj_get i ''raw'') items = rs \<and>
           list_all2 poster_derived rs items"
proof (induction rs arbitrary: acc)
  case Nil
  then show ?case by simp
next
  case (Cons r rs)
  from Cons.prems have ok: "trending_ok r" and rest: "list_all trending_ok rs" by simp_all
  from trending_item_ok[OF ok, of mt] obtain item
    where i: "trending_item mt r = Inr item" "obj_get item ''raw'' = r" "poster_derived r item"
    by blast
  from Cons.IH[OF rest, of "acc @ [item]"] obtain items
    where l: "trending_loop mt rs (acc @ [item]) = Inr ((acc @ [item]) @ items)"
      "map (\<lambda>i. obj_get i ''raw'') items = rs" "list_all2 poster_derived rs items"
    by blast
  show ?case
    by (rule exI[of _ "item # items"]) (use i l in simp)
qed

text \<open>
  C3: when \<open>media_type\<close> is outside \<open>{all, movie, tv}\<close> or \<open>time_window\<close> outside
  \<open>{day, week}\<close>, \<^verbatim>\<open>get_trending\<close> raises \<^verbatim>\<open>ValueError\<close> and the log of requests is
  as it was: no network call was made. With valid arguments, when the request answers
  with a document whose results are records that can be normalised, it returns one item
  per record, in the provider's order, each holding the record itself under \<^verbatim>\<open>raw\<close> and,
  under \<^verbatim>\<open>poster\<close>, the absolute URL made from the record's \<^verbatim>\<open>poster_path\<close> (\<^verbatim>\<open>None\<close>
  when the record has no poster path).
\<close>

theorem get_trending_checked:
  "(media_type \<notin> {''all'', ''movie'', ''tv''} \<or> time_window \<notin> {''day'', ''week''} \<longrightarrow>
      (\<exists>msg. fst (get_trending cfg rt lg media_type time_window page) = Inl (ValueError msg)) \<and>
      snd (get_trending cfg rt lg media_type time_window page) = lg) \<and>
   (media_type \<in> {''all'', ''movie'', ''tv''} \<and> time_window \<in> {''day'', ''week''} \<and>
    req cfg rt lg (''/trending/'' @ media_type @ ''/'' @ time_window) [(''page'', JInt page)]
      = (Inr data, lg') \<and>
    results_of data = Inr results \<and> list_all trending_ok results \<longrightarrow>
      (\<exists>items. get_trending cfg rt lg media_type time_window page = (Inr items, lg') \<and>
               map (\<lambda>i. obj_get i ''raw'') items = results \<and>
               list_all2 poster_derived results items))"
proof (intro conjI impI)
  assume "media_type \<notin> {''all'', ''movie'', ''tv''} \<or> time_window \<notin> {''day'', ''week''}"
  then show "\<exists>msg. fst (get_trending cfg rt lg media_type time_window page) = Inl (ValueError msg)"
    by (auto simp: get_trending_def)
next
  assume "media_type \<notin> {''all'', ''movie'', ''tv''} \<or> time_window \<notin> {''day'', ''week''}"
  then show "snd (get_trending cfg rt lg media_type time_window page) = lg"
    by (auto simp: get_trending_def)
next
  assume a: "media_type \<in> {''all'', ''movie'', ''tv''} \<and> time_window \<in> {''day'', ''week''} \<and>
    req cfg rt lg (''/trending/'' @ media_type @ ''/'' @ time_window) [(''page'', JInt page)]
      = (Inr data, lg') \<and>
    results_of data = Inr results \<and> list_all trending_ok results"
  then have ok: "list_all trending_ok results" by simp
  from trending_loop_ok[OF ok, of media_type "[]"] obtain items
    where "trending_loop media_type results [] = Inr items"
      "map (\<lambda>i. obj_get i ''raw'') items = results" "list_all2 poster_derived results items"
    by auto
  with a show "\<exists>items. get_trending cfg rt lg media_type time_window page = (Inr items, lg') \<and>
               map (\<lambda>i. obj_get i ''raw'') items = results \<and>
               list_all2 poster_derived results items"
    by (auto simp: get_trending_def)
qed

theorem get_trending_checked_witness:
  "((\<exists>msg. fst (get_trending \<lparr>TMDB_API_KEY = Some ''k'', OMDB_API_KEY = None\<rparr>
      \<lparr>provider = (\<lambda>rq. Response \<lparr>status_code = 200, body_text = [],
           json_body = Some (JObj [(''results'',
             JArr [JObj [(''id'', JInt 1), (''poster_path'', JStr ''/a.jpg'')],
                   JObj [(''id'', JInt 2)]])])\<rparr>),
       str_of = (\<lambda>v. [])\<rparr> [] ''bogus'' ''week'' 1) = Inl (ValueError msg)) \<and>
    snd (get_trending \<lparr>TMDB_API_KEY = Some ''k'', OMDB_API_KEY = None\<rparr>
      \<lparr>provider = (\<lambda>rq. Response \<lparr>status_code = 200, body_text = [],
           json_body = Some (JObj [(''results'',
             JArr [JObj [(''id'', JInt 1), (''poster_path'', JStr ''/a.jpg'')],
                   JObj [(''id'', JInt 2)]])])\<rparr>),
       str_of = (\<lambda>v. [])\<rparr> [] ''bogus'' ''week'' 1) = []) \<and>
   (\<exists>items. get_trending \<lparr>TMDB_API_KEY = Some ''k'', OMDB_API_KEY = None\<rparr>
      \<lparr>provider = (\<lambda>rq. Response \<lparr>status_code = 200, body_text = [],
           json_body = Some (JObj [(''results'',
             JArr [JObj [(''id'', JInt 1), (''poster_path'', JStr ''/a.jpg'')],
                   JObj [(''id'', JInt 2)]])])\<rparr>),
       str_of = (\<lambda>v. [])\<rparr> [] ''all'' ''week'' 1
        = (Inr items,
           [\<lparr>meth = GET, url = API_BASE @ ''/trending/all/week'',
             params = [(''api_key'', JStr ''k''), (''page'', JInt 1)], payload = JNull\<rparr>]) \<and>
      map (\<lambda>i. obj_get i ''raw'') items =
        [JObj [(''id'', JInt 1), (''poster_path'', JStr ''/a.jpg'')], JObj [(''id'', JInt 2)]] \<and>
      list_all2 poster_derived
        [JObj [(''id'', JInt 1), (''poster_path'', JStr ''/a.jpg'')], JObj [(''id'', JInt 2)]] items)"
proof -
  let ?cfg = "\<lparr>TMDB_API_KEY = Some ''k'', OMDB_API_KEY = None\<rparr>"
  let ?results = "[JObj [(''id'', JInt 1), (''poster_path'', JStr ''/a.jpg'')], JObj [(''id'', JInt 2)]]"
  let ?data = "JObj [(''results'', JArr ?results)]"
  let ?rt = "\<lparr>provider = (\<lambda>rq. Response \<lparr>status_code = 200, body_text = [],
           json_body = Some ?data\<rparr>), str_of = (\<lambda>v. [])\<rparr>"
  let ?lg = "[\<lparr>meth = GET, url = API_BASE @ ''/trending/all/week'',
               params = [(''api_key'', JStr ''k''), (''page'', JInt 1)], payload = JNull\<rparr>]"
  have r: "req ?cfg ?rt [] (''/trending/'' @ ''all'' @ ''/'' @ ''week'') [(''page'', JInt 1)]
      = (Inr ?data, ?lg)"
    by (simp add: req_def key_set_def key_json_def dict_update_all_def Let_def)
  have d: "results_of ?data = Inr ?results"
    by (simp add: results_of_def dict_get_default_def)
  have ok: "list_all trending_ok ?results"
    by (simp add: trending_ok_def dict_get_def dict_get_default_def)
  have a: "(\<exists>msg. fst (get_trending ?cfg ?rt [] ''bogus'' ''week'' 1) = Inl (ValueError msg)) \<and>
      snd (get_trending ?cfg ?rt [] ''bogus'' ''week'' 1) = []"
    using get_trending_checked [of "''bogus''" "''week''" ?cfg ?rt "[]" 1 ?data ?lg ?results]
    by simp
  have b: "\<exists>items. get_trending ?cfg ?rt [] ''all'' ''week'' 1 = (Inr items, ?lg) \<and>
      map (\<lambda>i. obj_get i ''raw'') items = ?results \<and> list_all2 poster_derived ?results items"
    using get_trending_checked [of "''all''" "''week''" ?cfg ?rt "[]" 1 ?data ?lg ?results] r d ok
    by simp
  from a b show ?thesis by (rule conjI)
qed

section \<open>Claims about the Firebase client\<close>

text \<open>
  C5: when the client holds no id token (no user, or a user whose \<^verbatim>\<open>idToken\<close> is
  missing or false), \<^verbatim>\<open>get_watchlist\<close> and \<^verbatim>\<open>add_to_watchlist\<close> raise
  \<^verbatim>\<open>FirebaseAuthError("User not authenticated")\<close> and the log of requests is as it was.
\<close>

theorem watchlist_needs_session:
  assumes "id_token c = Inr tok" and "\<not> truthy tok"
  shows "get_watchlist rt c lg = (Inl (FirebaseAuthError (JStr ''User not authenticated'')), lg) \<and>
         add_to_watchlist rt c lg imdb_id movie_data
           = (Inl (FirebaseAuthError (JStr ''User not authenticated'')), lg)"
  using assms by (simp add: get_watchlist_def add_to_watchlist_def)

theorem watchlist_needs_session_witness:
  "id_token \<lparr>api_key = Some ''k'', db_url = ''https://db'', user = JNull\<rparr> = Inr JNull \<and>
   \<not> truthy JNull \<and>
   get_watchlist \<lparr>provider = (\<lambda>rq. ConnectionFailed), str_of = (\<lambda>v. [])\<rparr>
      \<lparr>api_key = Some ''k'', db_url = ''https://db'', user = JNull\<rparr> []
     = (Inl (FirebaseAuthError (JStr ''User not authenticated'')), []) \<and>
   add_to_watchlist \<lparr>provider = (\<lambda>rq. ConnectionFailed), str_of = (\<lambda>v. [])\<rparr>
      \<lparr>api_key = Some ''k'', db_url = ''https://db'', user = JNull\<rparr> [] ''tt1'' (JObj [])
     = (Inl (FirebaseAuthError (JStr ''User not authenticated'')), [])"
  using watchlist_needs_session [of "\<lparr>api_key = Some ''k'', db_url = ''https://db'', user = JNull\<rparr>"
      JNull "\<lparr>provider = (\<lambda>rq. ConnectionFailed), str_of = (\<lambda>v. [])\<rparr>" "[]" "''tt1''" "JObj []"]
  by (simp add: id_token_def user_field_def)

text \<open>
  C9 (the claim as stated fails): a sign-in answered with status 502 and a body that is
  not JSON raises the \<^verbatim>\<open>JSONDecodeError\<close> of \<^verbatim>\<open>resp.json()\<close>, which is read before the
  status is tested, and not the typed auth error.
\<close>

theorem sign_in_not_json_counterexample:
  "sign_in \<lparr>provider = bad_gateway, str_of = no_str\<rparr> signed_out [] ''a@b.c'' ''pw''
     = (Inl JSONDecodeError, signed_out, [sign_in_request signed_out ''a@b.c'' ''pw''])"
  by (simp add: sign_in_def bad_gateway_def Let_def)

text \<open>
  C9 (amended): when the provider answers a sign-in with a status other than 200 and a
  body that is a JSON object whose \<^verbatim>\<open>error\<close> member, if any, is an object, \<^verbatim>\<open>sign_in\<close>
  raises \<^verbatim>\<open>FirebaseAuthError\<close> with the \<^verbatim>\<open>message\<close> of that object, or with
  \<^verbatim>\<open>"Sign in failed"\<close> when there is no such field; the stored session is left as it
  was: unset when it was unset, and still held when a session was held.
\<close>

theorem sign_in_rejected:
  assumes "provider rt (sign_in_request c email password) = Response r"
    and "status_code r \<noteq> 200"
    and "json_body r = Some (JObj d)"
    and "dict_get_default d ''error'' (JObj []) = JObj e"
  shows "sign_in rt c lg email password =
           (Inl (FirebaseAuthError
                   (case map_of e ''message'' of None \<Rightarrow> JStr ''Sign in failed'' | Some m \<Rightarrow> m)),
            c, lg @ [sign_in_request c email password]) \<and>
         is_authenticated (fst (snd (sign_in rt c lg email password))) = is_authenticated c"
  using assms by (simp add: sign_in_def dict_get_default_def Let_def)

theorem sign_in_rejected_witness:
  "sign_in \<lparr>provider = (\<lambda>rq. Response \<lparr>status_code = 400, body_text = [],
        json_body = Some (JObj [(''error'', JObj [(''code'', JInt 400),
                                                   (''message'', JStr ''INVALID_PASSWORD'')])])\<rparr>),
            str_of = (\<lambda>v. [])\<rparr>
      \<lparr>api_key = Some ''k'', db_url = ''https://db'', user = JNull\<rparr> [] ''a@b.c'' ''pw''
     = (Inl (FirebaseAuthError (JStr ''INVALID_PASSWORD'')),
        \<lparr>api_key = Some ''k'', db_url = ''https://db'', user = JNull\<rparr>,
        [sign_in_request \<lparr>api_key = Some ''k'', db_url = ''https://db'', user = JNull\<rparr> ''a@b.c'' ''pw'']) \<and>
   \<not> is_authenticated \<lparr>api_key = Some ''k'', db_url = ''https://db'', user = JNull\<rparr>"
  using sign_in_rejected [of
      "\<lparr>provider = (\<lambda>rq. Response \<lparr>status_code = 400, body_text = [],
        json_body = Some (JObj [(''error'', JObj [(''code'', JInt 400),
                                                   (''message'', JStr ''INVALID_PASSWORD'')])])\<rparr>),
            str_of = (\<lambda>v. [])\<rparr>"
      "\<lparr>api_key = Some ''k'', db_url = ''https://db'', user = JNull\<rparr>" "''a@b.c''" "''pw''"
      "\<lparr>status_code = 400, body_text = [],
        json_body = Some (JObj [(''error'', JObj [(''code'', JInt 400),
                                                   (''message'', JStr ''INVALID_PASSWORD'')])])\<rparr>"
      "[(''error'', JObj [(''code'', JInt 400), (''message'', JStr ''INVALID_PASSWORD'')])]"
      "[(''code'', JInt 400), (''message'', JStr ''INVALID_PASSWORD'')]" "[]"]
  by (simp add: dict_get_default_def is_authenticated_def)

section \<open>Claims about search_multi\<close>

lemmas sample_defs = empty_world_def both_keys_def tmdb_only_def no_str_def ok_json_def
  raw_movie_def raw_person_def raw_tv_def search_answer_def no_results_def raw_detail_def
  awards_up_def awards_down_def

lemmas eval_defs = cache_get_def load_cache_def cache_set_def save_cache_def cache_entry_def
  dict_get_def dict_get_default_def req_def key_set_def key_json_def dict_update_all_def
  results_of_def search_fetch_def search_multi_def search_params_def Let_def
  obj_get_def movie_or_tv_def is_obj_def

lemma multi_loop_spec:
  "list_all is_obj its \<Longrightarrow>
   \<exists>rs. multi_loop rt its acc = Inr (acc @ rs) \<and>
        map (\<lambda>r. obj_get r ''tmdb_raw'') rs = filter (\<lambda>it. movie_or_tv (obj_get it ''media_type'')) its \<and>
        list_all (\<lambda>r. movie_or_tv (obj_get r ''type'')) rs"
proof (induction its arbitrary: acc)
  case Nil
  then show ?case by simp
next
  case (Cons it its)
  from Cons.prems have hd: "is_obj it" and rest: "list_all is_obj its" by simp_all
  from hd obtain d where it: "it = JObj d" by (cases it) (simp_all add: is_obj_def)
  show ?case
  proof (cases "movie_or_tv (dict_get d ''media_type'')")
    case False
    from Cons.IH[OF rest, of acc] obtain rs
      where "multi_loop rt its acc = Inr (acc @ rs)"
        "map (\<lambda>r. obj_get r ''tmdb_raw'') rs = filter (\<lambda>it. movie_or_tv (obj_get it ''media_type'')) its"
        "list_all (\<lambda>r. movie_or_tv (obj_get r ''type'')) rs"
      by blast
    with False it show ?thesis
      by (intro exI[of _ rs]) (simp add: movie_or_tv_def obj_get_def)
  next
    case True
    let ?s = "summary_multi rt d (dict_get d ''media_type'')"
    from Cons.IH[OF rest, of "acc @ [?s]"] obtain rs
      where "multi_loop rt its (acc @ [?s]) = Inr ((acc @ [?s]) @ rs)"
        "map (\<lambda>r. obj_get r ''tmdb_raw'') rs = filter (\<lambda>it. movie_or_tv (obj_get it ''media_type'')) its"
        "list_all (\<lambda>r. movie_or_tv (obj_get r ''type'')) rs"
      by blast
    moreover have "obj_get ?s ''tmdb_raw'' = it" "obj_get ?s ''type'' = dict_get d ''media_type''"
      using it by (simp_all add: summary_multi_def obj_get_def dict_get_def dict_get_default_def)
    ultimately show ?thesis using True it
      by (intro exI[of _ "?s # rs"]) (auto simp: movie_or_tv_def obj_get_def)
  qed
qed

text \<open>
  C4: a multi search that misses the cache and whose request is answered with a list of
  records returns a list in which every item has type \<^verbatim>\<open>movie\<close> or \<^verbatim>\<open>tv\<close>, and the raw
  records kept in the items are exactly the provider's records of media type movie or tv,
  in the provider's order: records of any other media type (a person, say) are left out.
\<close>

theorem search_multi_keeps_movie_tv:
  assumes miss: "fst (cache_get (disk w) t_get (search_key ''multi'' query page)) = Inr JNull"
    and r: "req cfg rt (http_log w) ''/search/multi'' (search_params query page) = (Inr data, lg)"
    and items: "results_of data = Inr items"
    and objs: "list_all is_obj items"
  shows "\<exists>rs. fst (search_multi cfg rt w t_get t_set query ''multi'' page) = Inr (JArr rs) \<and>
              list_all (\<lambda>r. movie_or_tv (obj_get r ''type'')) rs \<and>
              map (\<lambda>r. obj_get r ''tmdb_raw'') rs
                = filter (\<lambda>it. movie_or_tv (obj_get it ''media_type'')) items"
proof -
  from multi_loop_spec[OF objs, of rt "[]"] obtain rs
    where l: "multi_loop rt items [] = Inr rs"
      and p: "map (\<lambda>r. obj_get r ''tmdb_raw'') rs = filter (\<lambda>it. movie_or_tv (obj_get it ''media_type'')) items"
        "list_all (\<lambda>r. movie_or_tv (obj_get r ''type'')) rs"
    by auto
  obtain c f1 where g: "cache_get (disk w) t_get (search_key ''multi'' query page) = (c, f1)"
    by (cases "cache_get (disk w) t_get (search_key ''multi'' query page)")
  with miss have c: "c = Inr JNull" by simp
  have f: "search_fetch cfg rt (http_log w) query ''multi'' page = (Inr rs, lg)"
    using r items l by (simp add: search_fetch_def)
  have "fst (search_multi cfg rt w t_get t_set query ''multi'' page) = Inr (JArr rs)"
    using g c f by (simp add: search_multi_def Let_def)
  with p show ?thesis by blast
qed

theorem search_multi_keeps_movie_tv_witness:
  "list_all is_obj [raw_movie, raw_person, raw_tv] \<and>
   (\<exists>rs. fst (search_multi both_keys \<lparr>provider = search_answer, str_of = no_str\<rparr> empty_world 0 0
               ''dune'' ''multi'' 1) = Inr (JArr rs) \<and>
         list_all (\<lambda>r. movie_or_tv (obj_get r ''type'')) rs \<and>
         map (\<lambda>r. obj_get r ''tmdb_raw'') rs = [raw_movie, raw_tv])"
proof -
  let ?rt = "\<lparr>provider = search_answer, str_of = no_str\<rparr>"
  let ?data = "JObj [(''results'', JArr [raw_movie, raw_person, raw_tv])]"
  let ?lg = "snd (req both_keys ?rt (http_log empty_world) ''/search/multi'' (search_params ''dune'' 1))"
  have miss: "fst (cache_get (disk empty_world) 0 (search_key ''multi'' ''dune'' 1)) = Inr JNull"
    by (simp add: empty_world_def cache_get_def load_cache_def dict_get_def dict_get_default_def)
  have "fst (req both_keys ?rt (http_log empty_world) ''/search/multi'' (search_params ''dune'' 1))
      = Inr ?data"
    by (simp add: req_def both_keys_def key_set_def search_answer_def ok_json_def Let_def)
  then have r: "req both_keys ?rt (http_log empty_world) ''/search/multi'' (search_params ''dune'' 1)
      = (Inr ?data, ?lg)"
    by (simp add: prod_eq_iff)
  have items: "results_of ?data = Inr [raw_movie, raw_person, raw_tv]"
    by (simp add: results_of_def dict_get_default_def)
  have objs: "list_all is_obj [raw_movie, raw_person, raw_tv]"
    by (simp add: is_obj_def raw_movie_def raw_person_def raw_tv_def)
  have f: "filter (\<lambda>it. movie_or_tv (obj_get it ''media_type'')) [raw_movie, raw_person, raw_tv]
      = [raw_movie, raw_tv]"
    by (simp add: movie_or_tv_def obj_get_def dict_get_def dict_get_default_def
        raw_movie_def raw_person_def raw_tv_def)
  from search_multi_keeps_movie_tv [OF miss r items objs, of 0] f objs
  show ?thesis by simp
qed

lemma cache_get_cases:
  "fst (cache_get f now k) = Inl AttributeError \<or> (\<exists>v. fst (cache_get f now k) = Inr v)"
  by (cases "load_cache f now")
     (auto simp: cache_get_def Let_def split: json.splits)

lemma req_error: "fst (req cfg rt lg path ps) = Inl e \<Longrightarrow> \<exists>t. e = TMDbError t"
  by (auto simp: req_def Let_def split: if_splits outcome.splits option.splits json.splits)

lemma req_log:
  "key_set (TMDB_API_KEY cfg) \<Longrightarrow>
   map url (snd (req cfg rt lg path ps)) = map url lg @ [API_BASE @ path]"
  by (auto simp: req_def Let_def split: outcome.splits option.splits json.splits)

lemma results_of_error: "results_of data = Inl e \<Longrightarrow> e = TypeError \<or> e = AttributeError"
proof (cases data)
  case (JObj d)
  assume "results_of data = Inl e"
  with JObj show ?thesis
    by (cases "dict_get_default d ''results'' (JArr [])") (auto simp: results_of_def)
qed (auto simp: results_of_def)

lemma multi_loop_error: "multi_loop rt its acc = Inl e \<Longrightarrow> e = AttributeError"
  by (induction its arbitrary: acc) (auto simp: Let_def split: json.splits if_splits)

lemma search_fetch_multi_error:
  assumes "fst (search_fetch cfg rt lg query ''both'' page) = Inl e"
  shows "e \<noteq> ValueError msg"
proof -
  obtain r lg' where r: "req cfg rt lg ''/search/multi'' (search_params query page) = (r, lg')"
    by (cases "req cfg rt lg ''/search/multi'' (search_params query page)")
  show ?thesis
  proof (cases r)
    case (Inl e')
    with r assms have "e = e'" by (simp add: search_fetch_def)
    moreover from req_error[of cfg rt lg "''/search/multi''" "search_params query page" e'] r Inl
    have "\<exists>t. e' = TMDbError t" by simp
    ultimately show ?thesis by auto
  next
    case (Inr data)
    show ?thesis
    proof (cases "results_of data")
      case (Inl e')
      with r Inr assms have "e = e'" by (simp add: search_fetch_def)
      with results_of_error[OF Inl] show ?thesis by auto
    next
      case items: (Inr items)
      with r Inr assms have "multi_loop rt items [] = Inl e" by (simp add: search_fetch_def)
      from multi_loop_error[OF this] show ?thesis by simp
    qed
  qed
qed

lemma search_fetch_log:
  "key_set (TMDB_API_KEY cfg) \<Longrightarrow>
   map url (snd (search_fetch cfg rt lg query ''both'' page)) = map url lg @ [API_BASE @ ''/search/multi'']"
  using req_log[of cfg rt lg "''/search/multi''" "search_params query page"]
  by (auto simp: search_fetch_def split: prod.splits sum.splits)

text \<open>
  C8 (the claim as stated fails): \<^verbatim>\<open>both\<close> is outside \<open>{movie, tv, multi}\<close>, and
  \<^verbatim>\<open>search_multi("dune", kind="both")\<close> raises nothing: it sends one request, to the
  combined endpoint, and returns its (here empty) list.
\<close>

theorem search_without_validation_counterexample:
  "fst (search_multi both_keys \<lparr>provider = no_results, str_of = no_str\<rparr> empty_world 0 0
          ''dune'' ''both'' 1) = Inr (JArr []) \<and>
   map url (http_log (snd (search_multi both_keys \<lparr>provider = no_results, str_of = no_str\<rparr>
          empty_world 0 0 ''dune'' ''both'' 1))) = [API_BASE @ ''/search/multi'']"
  by (simp add: sample_defs eval_defs)

text \<open>
  C8 (amended): \<^verbatim>\<open>search_multi\<close> takes the kind \<^verbatim>\<open>both\<close> as another name of
  \<^verbatim>\<open>multi\<close>: the fetch is the same as for \<^verbatim>\<open>multi\<close>, no invalid-argument error
  (\<^verbatim>\<open>ValueError\<close>) is ever raised for it, and on a cache miss with the metadata key set
  exactly one request is added to the log, to \<^verbatim>\<open>/search/multi\<close>.
\<close>

theorem search_both_is_multi:
  "search_fetch cfg rt lg query ''both'' page = search_fetch cfg rt lg query ''multi'' page \<and>
   fst (search_multi cfg rt w t_get t_set query ''both'' page) \<noteq> Inl (ValueError msg) \<and>
   (key_set (TMDB_API_KEY cfg) \<and>
    fst (cache_get (disk w) t_get (search_key ''both'' query page)) = Inr JNull \<longrightarrow>
      map url (http_log (snd (search_multi cfg rt w t_get t_set query ''both'' page)))
        = map url (http_log w) @ [API_BASE @ ''/search/multi''])"
proof (intro conjI impI)
  show "search_fetch cfg rt lg query ''both'' page = search_fetch cfg rt lg query ''multi'' page"
    by (simp add: search_fetch_def)
next
  obtain c f1 where g: "cache_get (disk w) t_get (search_key ''both'' query page) = (c, f1)"
    by (cases "cache_get (disk w) t_get (search_key ''both'' query page)")
  obtain r lg' where f: "search_fetch cfg rt (http_log (w\<lparr>disk := f1\<rparr>)) query ''both'' page = (r, lg')"
    by (cases "search_fetch cfg rt (http_log (w\<lparr>disk := f1\<rparr>)) query ''both'' page")
  from cache_get_cases[of "disk w" t_get "search_key ''both'' query page"] g
  have c: "c = Inl AttributeError \<or> (\<exists>v. c = Inr v)" by simp
  have r: "r \<noteq> Inl (ValueError msg)"
    using search_fetch_multi_error[of cfg rt "http_log (w\<lparr>disk := f1\<rparr>)" query page _ msg] f
    by (cases r) auto
  show "fst (search_multi cfg rt w t_get t_set query ''both'' page) \<noteq> Inl (ValueError msg)"
  proof (cases c)
    case (Inl e)
    with c g show ?thesis by (simp add: search_multi_def Let_def)
  next
    case (Inr v)
    show ?thesis
    proof (cases "v = JNull")
      case True
      with Inr g f r show ?thesis by (cases r) (simp_all add: search_multi_def Let_def)
    next
      case False
      with Inr g show ?thesis by (simp add: search_multi_def Let_def)
    qed
  qed
next
  assume a: "key_set (TMDB_API_KEY cfg) \<and>
    fst (cache_get (disk w) t_get (search_key ''both'' query page)) = Inr JNull"
  obtain c f1 where g: "cache_get (disk w) t_get (search_key ''both'' query page) = (c, f1)"
    by (cases "cache_get (disk w) t_get (search_key ''both'' query page)")
  with a have c: "c = Inr JNull" by simp
  obtain r lg' where f: "search_fetch cfg rt (http_log (w\<lparr>disk := f1\<rparr>)) query ''both'' page = (r, lg')"
    by (cases "search_fetch cfg rt (http_log (w\<lparr>disk := f1\<rparr>)) query ''both'' page")
  from search_fetch_log[of cfg rt "http_log (w\<lparr>disk := f1\<rparr>)" query page] a f
  have "map url lg' = map url (http_log w) @ [API_BASE @ ''/search/multi'']" by simp
  then show "map url (http_log (snd (search_multi cfg rt w t_get t_set query ''both'' page)))
        = map url (http_log w) @ [API_BASE @ ''/search/multi'']"
    using g c f by (cases r) (simp_all add: search_multi_def Let_def)
qed

theorem search_both_is_multi_witness:
  "key_set (TMDB_API_KEY both_keys) \<and>
   fst (cache_get (disk empty_world) 0 (search_key ''both'' ''dune'' 1)) = Inr JNull \<and>
   map url (http_log (snd (search_multi both_keys \<lparr>provider = search_answer, str_of = no_str\<rparr>
          empty_world 0 0 ''dune'' ''both'' 1))) = [API_BASE @ ''/search/multi'']"
  using search_both_is_multi [of both_keys "\<lparr>provider = search_answer, str_of = no_str\<rparr>" "[]"
      "''dune''" 1 empty_world 0 0 "[]"]
  by (simp add: sample_defs cache_get_def load_cache_def dict_get_def dict_get_default_def key_set_def)

section \<open>Claims about get_movie_details\<close>

lemma movie_out_no_awards: "movie_out rt data = Inr out \<Longrightarrow> map_of out ''awards'' = None"
  by (auto simp: movie_out_def split: json.splits sum.splits)

text \<open>
  C6 (the claim as stated fails): with an external id and the secondary key configured,
  a refusal of the awards lookup (status 500) leaves the detail with an \<^verbatim>\<open>awards\<close> field
  that is null, not with a non-null one.
\<close>

theorem awards_null_counterexample:
  "key_set (OMDB_API_KEY both_keys) \<and>
   fst (get_movie_details both_keys \<lparr>provider = awards_down, str_of = no_str\<rparr> empty_world 0 0 550)
     = Inr (JObj [(''type'', JStr ''movie''), (''id'', JInt 550), (''title'', JStr ''Fight Club''),
                  (''overview'', JNull), (''poster'', JNull), (''backdrop'', JNull),
                  (''genres'', JArr []), (''runtime'', JNull), (''rating'', JNull),
                  (''credits'', JObj []), (''imdb_id'', JStr ''tt0137523''),
                  (''awards'', JNull)])"
  by (simp add: sample_defs eval_defs get_movie_details_def movie_out_def enrich_def
      get_awards_from_omdb_def omdb_request_def poster_url_def API_BASE_def)

text \<open>
  C6 (amended): for a movie detail call that misses the cache, whose metadata request
  succeeds and whose detail can be built, the call returns the detail whatever the
  awards lookup does. When the detail has an external id and the secondary key is set,
  the detail has an \<^verbatim>\<open>awards\<close> field: the \<^verbatim>\<open>Awards\<close> value of the secondary provider's
  answer when that answer has status 200 and is a JSON object, and null in every other
  case (no connection, another status, a body that is not a JSON object). When the
  secondary key is absent or the detail has no external id, the detail has no
  \<^verbatim>\<open>awards\<close> field.
\<close>

theorem movie_details_awards:
  assumes miss: "fst (cache_get (disk w) t_get (''movie:'' @ str_int tmdb_id)) = Inr JNull"
    and r: "req cfg rt (http_log w) (''/movie/'' @ str_int tmdb_id)
              [(''append_to_response'', JStr ''credits,external_ids'')] = (Inr data, lg)"
    and out: "movie_out rt data = Inr out"
  shows "\<exists>out'. fst (get_movie_details cfg rt w t_get t_set tmdb_id) = Inr (JObj out') \<and>
      map_of out' ''awards'' =
        (if truthy (dict_get out ''imdb_id'') \<and> key_set (OMDB_API_KEY cfg)
         then Some (case provider rt (omdb_request cfg (dict_get out ''imdb_id'')) of
                      ConnectionFailed \<Rightarrow> JNull
                    | Response a \<Rightarrow>
                        if status_code a = 200
                        then (case json_body a of Some (JObj j) \<Rightarrow> dict_get j ''Awards'' | _ \<Rightarrow> JNull)
                        else JNull)
         else None)"
proof -
  obtain c f1 where g: "cache_get (disk w) t_get (''movie:'' @ str_int tmdb_id) = (c, f1)"
    by (cases "cache_get (disk w) t_get (''movie:'' @ str_int tmdb_id)")
  with miss have c: "c = Inr JNull" by simp
  obtain out' lg' where e: "enrich cfg rt lg out = (out', lg')" by (cases "enrich cfg rt lg out")
  have res: "fst (get_movie_details cfg rt w t_get t_set tmdb_id) = Inr (JObj out')"
    using g c r out e by (simp add: get_movie_details_def Let_def)
  have aw: "fst (get_awards_from_omdb cfg rt lg i) =
      (case provider rt (omdb_request cfg i) of
         ConnectionFailed \<Rightarrow> JNull
       | Response a \<Rightarrow>
           if status_code a = 200
           then (case json_body a of Some (JObj j) \<Rightarrow> dict_get j ''Awards'' | _ \<Rightarrow> JNull)
           else JNull)"
    if "truthy i" "key_set (OMDB_API_KEY cfg)" for i
    using that
    by (auto simp: get_awards_from_omdb_def Let_def split: outcome.splits option.splits json.splits)
  show ?thesis
  proof (cases "truthy (dict_get out ''imdb_id'') \<and> key_set (OMDB_API_KEY cfg)")
    case True
    then have "out' = AList.update ''awards'' (fst (get_awards_from_omdb cfg rt lg (dict_get out ''imdb_id''))) out"
      using e by (auto simp: enrich_def split: prod.splits)
    then show ?thesis using res True aw[of "dict_get out ''imdb_id''"]
      by (intro exI[of _ out']) (simp add: update_conv')
  next
    case False
    then have "out' = out" using e by (auto simp: enrich_def)
    then show ?thesis using res False movie_out_no_awards[OF out]
      by (intro exI[of _ out']) auto
  qed
qed

theorem movie_details_awards_witness:
  "(\<exists>out'. fst (get_movie_details both_keys \<lparr>provider = awards_up, str_of = no_str\<rparr>
                  empty_world 0 0 550) = Inr (JObj out') \<and>
           map_of out' ''awards'' = Some (JStr ''Nominated for 1 Oscar'')) \<and>
   (\<exists>out'. fst (get_movie_details tmdb_only \<lparr>provider = awards_up, str_of = no_str\<rparr>
                  empty_world 0 0 550) = Inr (JObj out') \<and>
           map_of out' ''awards'' = None)"
proof -
  let ?rt = "\<lparr>provider = awards_up, str_of = no_str\<rparr>"
  let ?out = "[(''type'', JStr ''movie''), (''id'', JInt 550), (''title'', JStr ''Fight Club''),
               (''overview'', JNull), (''poster'', JNull), (''backdrop'', JNull),
               (''genres'', JArr []), (''runtime'', JNull), (''rating'', JNull),
               (''credits'', JObj []), (''imdb_id'', JStr ''tt0137523'')]"
  have miss: "fst (cache_get (disk empty_world) 0 (''movie:'' @ str_int 550)) = Inr JNull"
    by (simp add: empty_world_def cache_get_def load_cache_def dict_get_def dict_get_default_def)
  have out: "movie_out ?rt raw_detail = Inr ?out"
    by (simp add: movie_out_def raw_detail_def dict_get_def dict_get_default_def poster_url_def)
  have r: "req cfg ?rt (http_log empty_world) (''/movie/'' @ str_int 550)
              [(''append_to_response'', JStr ''credits,external_ids'')]
        = (Inr raw_detail, snd (req cfg ?rt (http_log empty_world) (''/movie/'' @ str_int 550)
              [(''append_to_response'', JStr ''credits,external_ids'')]))"
    if "key_set (TMDB_API_KEY cfg)" for cfg
    using that
    by (simp add: prod_eq_iff req_def awards_up_def ok_json_def API_BASE_def Let_def)
  have a: "\<exists>out'. fst (get_movie_details both_keys ?rt empty_world 0 0 550) = Inr (JObj out') \<and>
           map_of out' ''awards'' = Some (JStr ''Nominated for 1 Oscar'')"
    using movie_details_awards [OF miss r out, of both_keys 0]
    by (simp add: both_keys_def key_set_def omdb_request_def awards_up_def ok_json_def
        dict_get_def dict_get_default_def)
  have b: "\<exists>out'. fst (get_movie_details tmdb_only ?rt empty_world 0 0 550) = Inr (JObj out') \<and>
           map_of out' ''awards'' = None"
    using movie_details_awards [OF miss r out, of tmdb_only 0]
    by (simp add: tmdb_only_def key_set_def)
  from a b show ?thesis by (rule conjI)
qed

section \<open>Claims about the start of the application\<close>

lemma config_module_eq:
  "config_module here env =
     (if \<not> key_set (env ''OMDB_API_KEY'')
      then Inl (ConfigError (''Missing required environment variable: '' @ ''OMDB_API_KEY''))
      else if \<not> key_set (env ''FIREBASE_API_KEY'')
      then Inl (ConfigError (''Missing required environment variable: '' @ ''FIREBASE_API_KEY''))
      else if \<not> key_set (env ''FIREBASE_DB_URL'')
      then Inl (ConfigError (''Missing required environment variable: '' @ ''FIREBASE_DB_URL''))
      else Inr [(''BASE_DIR'', Some here),
                (''env_path'', Some (here @ ''/.env'')),
                (''OMDB_API_KEY'', env ''OMDB_API_KEY''),
                (''FIREBASE_API_KEY'', env ''FIREBASE_API_KEY''),
                (''FIREBASE_DB_URL'', env ''FIREBASE_DB_URL''),
                (''PERPLEXITY_API_KEY'', env ''PERPLEXITY_API_KEY'')])"
  by (simp add: config_module_def config_get_def key_set_def split: option.splits)

lemma tmdb_client_module_eq:
  "tmdb_client_module here env =
     \<lparr>TMDB_API_KEY = env ''TMDB_API_KEY'', OMDB_API_KEY = env ''OMDB_API_KEY''\<rparr>"
  by (simp add: tmdb_client_module_def config_module_eq)

lemma startup_eq:
  "startup here env =
     (if \<not> key_set (env ''OMDB_API_KEY'')
      then Inl (ConfigError (''Missing required environment variable: '' @ ''OMDB_API_KEY''))
      else if \<not> key_set (env ''FIREBASE_API_KEY'')
      then Inl (ConfigError (''Missing required environment variable: '' @ ''FIREBASE_API_KEY''))
      else if \<not> key_set (env ''FIREBASE_DB_URL'')
      then Inl (ConfigError (''Missing required environment variable: '' @ ''FIREBASE_DB_URL''))
      else Inr \<lparr>auth = init_client (env ''FIREBASE_API_KEY'') (the (env ''FIREBASE_DB_URL'')),
                tmdb = \<lparr>TMDB_API_KEY = env ''TMDB_API_KEY'', OMDB_API_KEY = env ''OMDB_API_KEY''\<rparr>,
                ai_key = env ''PERPLEXITY_API_KEY''\<rparr>)"
  by (auto simp: startup_def config_module_eq tmdb_client_module_eq key_set_def split: option.splits)

text \<open>
  C7 (the claim as stated fails): with the secondary-provider key, the identity-provider
  key and the database URL set and the metadata-provider key absent, the application
  starts.
\<close>

theorem startup_without_tmdb_key_counterexample:
  "env_without_tmdb ''TMDB_API_KEY'' = None \<and>
   startup ''/app'' env_without_tmdb =
     Inr \<lparr>auth = \<lparr>api_key = Some ''fb-key'', db_url = ''https://db.example'', user = JNull\<rparr>,
          tmdb = \<lparr>TMDB_API_KEY = None, OMDB_API_KEY = Some ''omdb-key''\<rparr>,
          ai_key = None\<rparr>"
  by (simp add: startup_def config_module_def config_get_def key_set_def tmdb_client_module_def
      env_without_tmdb_def init_client_def rstrip_slash_def)

text \<open>
  C7 (amended): the application starts iff the secondary-provider key, the
  identity-provider key and the database URL are all set (not missing, not empty);
  otherwise the start fails with the \<^verbatim>\<open>ConfigError\<close> naming one of these three. The
  metadata-provider key is read from the environment as it is: when it is absent the
  start succeeds and every metadata request then fails with
  \<^verbatim>\<open>TMDbError('TMDB_API_KEY not set')\<close> before any network call. An absent AI-provider key
  does not fail the start; it only makes \<^verbatim>\<open>is_enabled\<close> false.
\<close>

theorem startup_requirements:
  "((\<exists>a. startup here env = Inr a) \<longleftrightarrow>
       key_set (env ''OMDB_API_KEY'') \<and> key_set (env ''FIREBASE_API_KEY'') \<and>
       key_set (env ''FIREBASE_DB_URL'')) \<and>
   (startup here env = Inr a \<longrightarrow>
       tmdb a = \<lparr>TMDB_API_KEY = env ''TMDB_API_KEY'', OMDB_API_KEY = env ''OMDB_API_KEY''\<rparr> \<and>
       ai_key a = env ''PERPLEXITY_API_KEY'' \<and>
       (\<not> key_set (env ''TMDB_API_KEY'') \<longrightarrow>
          req (tmdb a) rt lg path ps = (Inl (TMDbError KeyNotSet), lg)) \<and>
       (env ''PERPLEXITY_API_KEY'' = None \<longrightarrow> \<not> is_enabled (ai_key a))) \<and>
   (startup here env = Inl e \<longrightarrow>
       e \<in> {ConfigError (''Missing required environment variable: '' @ n) | n.
              n \<in> {''OMDB_API_KEY'', ''FIREBASE_API_KEY'', ''FIREBASE_DB_URL''}})"
proof (intro conjI impI)
  show "(\<exists>a. startup here env = Inr a) \<longleftrightarrow>
       key_set (env ''OMDB_API_KEY'') \<and> key_set (env ''FIREBASE_API_KEY'') \<and>
       key_set (env ''FIREBASE_DB_URL'')"
    by (simp add: startup_eq)
next
  assume s: "startup here env = Inr a"
  then have a: "a = \<lparr>auth = init_client (env ''FIREBASE_API_KEY'') (the (env ''FIREBASE_DB_URL'')),
                tmdb = \<lparr>TMDB_API_KEY = env ''TMDB_API_KEY'', OMDB_API_KEY = env ''OMDB_API_KEY''\<rparr>,
                ai_key = env ''PERPLEXITY_API_KEY''\<rparr>"
    by (simp add: startup_eq split: if_splits)
  show "tmdb a = \<lparr>TMDB_API_KEY = env ''TMDB_API_KEY'', OMDB_API_KEY = env ''OMDB_API_KEY''\<rparr>"
    by (simp add: a)
  show "ai_key a = env ''PERPLEXITY_API_KEY''" by (simp add: a)
  show "req (tmdb a) rt lg path ps = (Inl (TMDbError KeyNotSet), lg)"
    if "\<not> key_set (env ''TMDB_API_KEY'')" using that by (simp add: a req_def)
  show "\<not> is_enabled (ai_key a)" if "env ''PERPLEXITY_API_KEY'' = None"
    using that by (simp add: a is_enabled_def)
next
  assume "startup here env = Inl e"
  then show "e \<in> {ConfigError (''Missing required environment variable: '' @ n) | n.
              n \<in> {''OMDB_API_KEY'', ''FIREBASE_API_KEY'', ''FIREBASE_DB_URL''}}"
    by (auto simp: startup_eq split: if_splits)
qed

theorem startup_requirements_witness:
  "startup ''/app'' env_without_tmdb =
     Inr \<lparr>auth = \<lparr>api_key = Some ''fb-key'', db_url = ''https://db.example'', user = JNull\<rparr>,
          tmdb = \<lparr>TMDB_API_KEY = None, OMDB_API_KEY = Some ''omdb-key''\<rparr>,
          ai_key = None\<rparr> \<and>
   req \<lparr>TMDB_API_KEY = None, OMDB_API_KEY = Some ''omdb-key''\<rparr>
       \<lparr>provider = search_answer, str_of = no_str\<rparr> [] ''/search/multi'' []
     = (Inl (TMDbError KeyNotSet), []) \<and>
   \<not> is_enabled None \<and>
   startup ''/app'' env_without_firebase =
     Inl (ConfigError ''Missing required environment variable: FIREBASE_API_KEY'')"
proof -
  let ?a = "\<lparr>auth = \<lparr>api_key = Some ''fb-key'', db_url = ''https://db.example'', user = JNull\<rparr>,
          tmdb = \<lparr>TMDB_API_KEY = None, OMDB_API_KEY = Some ''omdb-key''\<rparr>,
          ai_key = None\<rparr>"
  let ?e = "ConfigError ''Missing required environment variable: FIREBASE_API_KEY''"
  have s: "startup ''/app'' env_without_tmdb = Inr ?a"
    by (simp add: startup_def config_module_def config_get_def key_set_def tmdb_client_module_def
        env_without_tmdb_def init_client_def rstrip_slash_def)
  have f: "startup ''/app'' env_without_firebase = Inl ?e"
    by (simp add: startup_def config_module_def config_get_def key_set_def env_without_firebase_def)
  have k: "\<not> key_set (env_without_tmdb ''TMDB_API_KEY'')"
      "env_without_tmdb ''PERPLEXITY_API_KEY'' = None"
    by (simp_all add: env_without_tmdb_def key_set_def)
  from startup_requirements [of "''/app''" env_without_tmdb ?a
      "\<lparr>provider = search_answer, str_of = no_str\<rparr>" "[]" "''/search/multi''" "[]" ?e] s k
  have "req (tmdb ?a) \<lparr>provider = search_answer, str_of = no_str\<rparr> [] ''/search/multi'' []
     = (Inl (TMDbError KeyNotSet), []) \<and> \<not> is_enabled (ai_key ?a)"
    by blast
  then have "req \<lparr>TMDB_API_KEY = None, OMDB_API_KEY = Some ''omdb-key''\<rparr>
       \<lparr>provider = search_answer, str_of = no_str\<rparr> [] ''/search/multi'' []
     = (Inl (TMDbError KeyNotSet), []) \<and> \<not> is_enabled None"
    by simp
  with s f show ?thesis by simp
qed

end
